theory Spec2Isabelle
  imports Complex_Main "HOL-Library.Sublist"
begin

section \<open>Data model of \<open>llama_wrapper.cpp\<close>\<close>

text \<open>
  The wrapper drives an external inference engine (llama.cpp).  The engine is a black
  box: every value the engine hands back to the wrapper is an input of the model (the
  records \<open>init_env\<close>, \<open>prep_env\<close> and \<open>step_env\<close> below), and every call the
  wrapper makes into the engine is recorded as an \<open>engine_call\<close>, in program order.

  C \<open>int\<close> values are modelled as \<open>int\<close>.  The counters stay between 0 and the
  context size, which the engine reports as a 32-bit value, so no arithmetic of the
  wrapper leaves the range of \<open>int\<close> in C.
\<close>

type_synonym llama_token = int

text \<open>A C \<open>float\<close>, as far as the wrapper looks at it: it is only compared with \<open>==\<close>
  and handed on to the engine.  \<open>feq\<close> is C's \<open>==\<close>: a NaN is equal to nothing.\<close>

datatype cfloat = FNum rat | FPosInf | FNegInf | FNaN

definition feq :: "cfloat \<Rightarrow> cfloat \<Rightarrow> bool" where
  "feq x y = (x \<noteq> FNaN \<and> y \<noteq> FNaN \<and> x = y)"

datatype sampler_stage =
    Penalties int cfloat cfloat cfloat
  | Temp cfloat
  | Top_k int
  | Top_p cfloat nat
  | Dist nat

text \<open>A sampler chain is the list of the stages added to it, in order.\<close>

type_synonym llama_sampler = "sampler_stage list"

record batch_entry =
  token :: llama_token
  pos :: int
  n_seq_id :: int
  seq_id :: int
  logits :: bool

text \<open>\<open>llama_batch\<close>: the arrays \<open>token\<close>, \<open>pos\<close>, \<open>n_seq_id\<close>, \<open>seq_id\<close> and
  \<open>logits\<close> are one list of slots (its length is the capacity given to
  \<open>llama_batch_init\<close>); the engine reads the first \<open>n_tokens\<close> slots.\<close>

record llama_batch =
  n_tokens :: int
  slots :: "batch_entry list"

datatype llama_model = Model string

text \<open>A context, with the size \<open>llama_n_ctx\<close> reports for it.\<close>

datatype llama_context = Context int

fun llama_n_ctx :: "llama_context \<Rightarrow> int" where
  "llama_n_ctx (Context n) = n"

text \<open>\<open>struct LlamaHandle\<close>.  The record is a handle as \<open>wrapper_init\<close> returns it:
  \<open>model\<close> and \<open>ctx\<close> are set (the function returns no handle otherwise), and
  \<open>vocab\<close> is the model's.  \<open>smpl\<close> is \<open>None\<close> for the null pointer.\<close>

record LlamaHandle =
  model :: llama_model
  ctx :: llama_context
  batch :: llama_batch
  smpl :: "llama_sampler option"
  n_cur :: int
  is_prepared :: bool
  batch_size :: int
  last_temp :: cfloat
  last_top_p :: cfloat
  n_prompt :: int
  n_gen :: int
  max_new_tokens :: int

datatype engine_call =
    Backend_init
  | Model_load string bool
  | Init_from_model
  | Batch_init int
  | Sampler_reset
  | Sampler_free
  | Sampler_chain_init
  | Sampler_chain_add sampler_stage
  | Memory_clear
  | Decode "batch_entry list" int
  | Sampler_sample llama_token
  | Batch_free
  | Context_free
  | Model_free
  | Delete_handle
  | Backend_free

definition default_entry :: batch_entry where
  "default_entry = \<lparr>token = 0, pos = 0, n_seq_id = 0, seq_id = 0, logits = False\<rparr>"

definition reset_batch_positions :: "LlamaHandle \<Rightarrow> LlamaHandle" where
  "reset_batch_positions handle = handle\<lparr>batch := (batch handle)\<lparr>n_tokens := 0\<rparr>\<rparr>"

text \<open>What \<open>llama_decode\<close> is given: the first \<open>n_tokens\<close> slots of the batch.\<close>

definition submitted :: "llama_batch \<Rightarrow> batch_entry list" where
  "submitted b = take (nat (n_tokens b)) (slots b)"

subsection \<open>\<open>ensure_sampler\<close>\<close>

text \<open>The stages \<open>ensure_sampler\<close> adds.  \<open>5033165 / 4194304\<close> is the value of the
  \<open>float\<close> literal \<open>1.2f\<close>.\<close>

definition sampler_chain :: "cfloat \<Rightarrow> cfloat \<Rightarrow> llama_sampler" where
  "sampler_chain temp top_p =
     [Penalties 64 (FNum (5033165 / 4194304)) (FNum 0) (FNum 0), Temp temp, Top_k 40,
      Top_p top_p 1, Dist 1234]"

text \<open>\<open>chain_ok\<close> is whether \<open>llama_sampler_chain_init\<close> returns a chain, should the
  function call it.  The result is the returned flag, the handle and the engine calls.\<close>

definition ensure_sampler ::
  "LlamaHandle \<Rightarrow> cfloat \<Rightarrow> cfloat \<Rightarrow> bool \<Rightarrow> bool \<times> LlamaHandle \<times> engine_call list" where
  "ensure_sampler handle temp top_p chain_ok =
     (if smpl handle \<noteq> None \<and> feq temp (last_temp handle) \<and> feq top_p (last_top_p handle)
      then (True, handle, [Sampler_reset])
      else
        let freed = (if smpl handle \<noteq> None then [Sampler_free] else []) in
        if \<not> chain_ok
        then (False, handle\<lparr>smpl := None\<rparr>, freed @ [Sampler_chain_init])
        else (True,
              handle\<lparr>smpl := Some (sampler_chain temp top_p),
                     last_temp := temp, last_top_p := top_p\<rparr>,
              freed @ Sampler_chain_init # map Sampler_chain_add (sampler_chain temp top_p)))"

subsection \<open>\<open>wrapper_init\<close>\<close>

record init_env =
  model_loads :: bool
  context_inits :: bool
  context_size :: int

definition wrapper_init ::
  "string \<Rightarrow> int \<Rightarrow> int \<Rightarrow> bool \<Rightarrow> init_env \<Rightarrow> LlamaHandle option \<times> engine_call list" where
  "wrapper_init model_path ctx_size threads use_mmap env =
     (let requested_ctx = (if ctx_size > 0 then ctx_size else 1024);
          n_batch = min 128 requested_ctx;
          bs = min 128 n_batch
      in if \<not> model_loads env
         then (None, [Backend_init, Model_load model_path use_mmap])
         else if \<not> context_inits env
         then (None, [Backend_init, Model_load model_path use_mmap, Init_from_model, Model_free])
         else (Some \<lparr>model = Model model_path, ctx = Context (context_size env),
                     batch = \<lparr>n_tokens = 0, slots = replicate (nat bs) default_entry\<rparr>,
                     smpl = None, n_cur = 0, is_prepared = False, batch_size = bs,
                     last_temp = FNum (- 1), last_top_p = FNum (- 1),
                     n_prompt = 0, n_gen = 0, max_new_tokens = 128\<rparr>,
               [Backend_init, Model_load model_path use_mmap, Init_from_model, Batch_init bs]))"

subsection \<open>\<open>wrapper_prepare_prompt\<close>\<close>

text \<open>Modelled from the spec: the engine's tokenizer \<open>llama_tokenize\<close>, which is not
  part of the repository ("if the engine reports insufficient capacity (negative count
  signaling required size), a second attempt exactly sized to the reported
  requirement").  \<open>toks\<close> is the tokenization of the text, \<open>cap\<close> the capacity of the
  vector handed in.\<close>

definition llama_tokenize :: "llama_token list \<Rightarrow> nat \<Rightarrow> int" where
  "llama_tokenize toks cap =
     (if length toks \<le> cap then int (length toks) else - int (length toks))"

text \<open>The engine's answers during one \<open>wrapper_prepare_prompt\<close>: \<open>strlen(prompt)\<close>,
  the prompt's tokens, and the result of \<open>llama_decode\<close> for the chunk that starts at
  token index \<open>i\<close>.\<close>

record prep_env =
  prompt_len :: nat
  prompt_tokens :: "llama_token list"
  chunk_rc :: "int \<Rightarrow> int"

text \<open>One round of the inner loop \<open>for (j = 0; j < n_eval; j++)\<close>.\<close>

definition set_slot ::
  "llama_token list \<Rightarrow> int \<Rightarrow> int \<Rightarrow> nat \<Rightarrow> LlamaHandle \<Rightarrow> LlamaHandle" where
  "set_slot tokens i n_eval j handle =
     handle\<lparr>batch :=
       \<lparr>n_tokens = n_tokens (batch handle) + 1,
        slots = (slots (batch handle))
          [j := \<lparr>token = tokens ! (nat i + j), pos = n_cur handle + int j,
                 n_seq_id = 1, seq_id = 0, logits = (int j = n_eval - 1)\<rparr>]\<rparr>\<rparr>"

definition fill_chunk :: "llama_token list \<Rightarrow> int \<Rightarrow> int \<Rightarrow> LlamaHandle \<Rightarrow> LlamaHandle" where
  "fill_chunk tokens i n_eval handle =
     fold (set_slot tokens i n_eval) [0..<nat n_eval] (reset_batch_positions handle)"

text \<open>The loop \<open>for (i = 0; i < n_tokens; i += handle->batch_size)\<close>, from index \<open>i\<close>
  on (\<open>n_tok\<close> is the local \<open>n_tokens\<close>).  It returns \<open>False\<close> at the first chunk the engine refuses and \<open>True\<close> when all
  tokens are consumed; \<open>None\<close> is a loop that never ends.\<close>

partial_function (option) prefill ::
  "LlamaHandle \<Rightarrow> llama_token list \<Rightarrow> int \<Rightarrow> (int \<Rightarrow> int) \<Rightarrow> int \<Rightarrow> engine_call list
     \<Rightarrow> (bool \<times> LlamaHandle \<times> engine_call list) option" where
  "prefill handle tokens n_tok rc i calls =
     (if i < n_tok then
        (let n_eval = (if n_tok - i > batch_size handle then batch_size handle
                       else n_tok - i);
             h1 = fill_chunk tokens i n_eval handle;
             calls1 = calls @ [Decode (submitted (batch h1)) (rc i)]
         in if rc i \<noteq> 0 then Some (False, h1, calls1)
            else prefill (h1\<lparr>n_cur := n_cur h1 + n_eval\<rparr>) tokens n_tok rc
                   (i + batch_size handle) calls1)
      else Some (True, handle, calls))"

definition prepare_prompt ::
  "LlamaHandle \<Rightarrow> prep_env \<Rightarrow> (bool \<times> LlamaHandle \<times> engine_call list) option" where
  "prepare_prompt handle env =
     (let h0 = handle\<lparr>is_prepared := False\<rparr>;
          n1 = llama_tokenize (prompt_tokens env) (prompt_len env + 1);
          n_tok = (if n1 < 0 then llama_tokenize (prompt_tokens env) (nat (- n1)) else n1);
          tokens = take (nat n_tok) (prompt_tokens env);
          n_ctx = llama_n_ctx (ctx h0);
          safety = 128
      in if n_tok \<ge> n_ctx - safety then Some (False, h0, [Memory_clear])
         else
           (case prefill (h0\<lparr>n_cur := 0\<rparr>) tokens n_tok (chunk_rc env) 0 [Memory_clear] of
              None \<Rightarrow> None
            | Some (ok, h1, calls) \<Rightarrow>
                if \<not> ok then Some (False, h1, calls)
                else
                  (let h2 = h1\<lparr>n_prompt := n_cur h1, n_gen := 0,
                               max_new_tokens := max 16 (n_ctx - n_cur h1 - safety),
                               is_prepared := True\<rparr>
                   in Some (True, h2,
                            calls @ (if smpl h2 \<noteq> None then [Sampler_reset] else [])))))"

subsection \<open>\<open>wrapper_get_next_token\<close>\<close>

text \<open>\<open>strstr\<close> reads its first argument up to the first NUL byte.\<close>

definition c_str :: "string \<Rightarrow> string" where
  "c_str buf = takeWhile (\<lambda>c. c \<noteq> CHR 0x00) buf"

fun find_from :: "string \<Rightarrow> string \<Rightarrow> bool" where
  "find_from [] needle = (needle = [])"
| "find_from (c # cs) needle = (prefix needle (c # cs) \<or> find_from cs needle)"

definition strstr :: "string \<Rightarrow> string \<Rightarrow> bool" where
  "strstr haystack needle = find_from (c_str haystack) needle"

definition stop_markers :: "string list" where
  "stop_markers = [''<|im_end|'', ''<|im_start|>'', ''<|user|>'', ''user'' @ [CHR 0x0A]]"

definition stop_sequence :: "string \<Rightarrow> bool" where
  "stop_sequence out_buf =
     (strstr out_buf ''<|im_end|'' \<or> strstr out_buf ''<|im_start|>'' \<or>
      strstr out_buf ''<|user|>'' \<or> strstr out_buf (''user'' @ [CHR 0x0A]))"

text \<open>The engine's answers during one \<open>wrapper_get_next_token\<close>: whether
  \<open>llama_sampler_chain_init\<close> gives a chain, the token \<open>llama_sampler_sample\<close> draws,
  the value \<open>llama_token_to_piece\<close> returns and the bytes it wrote to \<open>out_buf\<close>,
  whether \<open>llama_vocab_is_eog\<close> holds of the token, and the result of
  \<open>llama_decode\<close>.\<close>

record step_env =
  chain_ok :: bool
  sampled :: llama_token
  piece_n :: int
  piece_text :: string
  is_eog :: bool
  decode_rc :: int

text \<open>\<open>out_buf\<close> after \<open>out_buf[n] = '\0'\<close>, for \<open>n > 0\<close>: the \<open>n\<close> bytes the engine
  wrote (\<open>piece_text\<close> holds them) and the terminator.\<close>

definition out_buf_of :: "step_env \<Rightarrow> string" where
  "out_buf_of env = take (nat (piece_n env)) (piece_text env) @ [CHR 0x00]"

definition single_batch :: "LlamaHandle \<Rightarrow> llama_token \<Rightarrow> LlamaHandle" where
  "single_batch handle tok =
     handle\<lparr>batch :=
       \<lparr>n_tokens = 1,
        slots = (slots (batch handle))
          [0 := \<lparr>token = tok, pos = n_cur handle, n_seq_id = 1, seq_id = 0,
                 logits = True\<rparr>]\<rparr>\<rparr>"

text \<open>The body of \<open>wrapper_get_next_token\<close> after the null check.  The result is the
  returned \<open>int\<close>, the handle, and the engine calls made.\<close>

definition get_next_token ::
  "LlamaHandle \<Rightarrow> cfloat \<Rightarrow> cfloat \<Rightarrow> step_env \<Rightarrow> int \<times> LlamaHandle \<times> engine_call list" where
  "get_next_token handle temp top_p env =
     (if \<not> is_prepared handle then (- 2, handle, [])
      else
        (case ensure_sampler handle temp top_p (chain_ok env) of
           (ok, h1, calls) \<Rightarrow>
             if \<not> ok then (- 3, h1, calls)
             else
               (let n_ctx = llama_n_ctx (ctx h1) in
                if n_cur h1 \<ge> n_ctx - 4 then (0, h1, calls)
                else if n_gen h1 \<ge> max_new_tokens h1 then (0, h1, calls)
                else
                  (let tok = sampled env;
                       n = piece_n env;
                       calls1 = calls @ [Sampler_sample tok]
                   in if n > 0 \<and> stop_sequence (out_buf_of env) then (0, h1, calls1)
                      else if is_eog env then (0, h1, calls1)
                      else
                        (let h2 = single_batch h1 tok;
                             res = decode_rc env;
                             calls2 = calls1 @ [Decode (submitted (batch h2)) res]
                         in if res \<noteq> 0 then (- 4, h2, calls2)
                            else (n, h2\<lparr>n_cur := n_cur h2 + 1, n_gen := n_gen h2 + 1\<rparr>,
                                  calls2))))))"

subsection \<open>Handles as pointers: \<open>wrapper_free\<close> and the null checks\<close>

text \<open>The functions take a \<open>void *\<close>.  A pointer is an address, 0 the null pointer;
  the heap maps the address of every live \<open>LlamaHandle\<close> to its contents, and is
  \<open>None\<close> at an address where no handle lives (never allocated, or deleted).
  Dereferencing such a pointer is undefined behaviour in C++: the model returns
  \<open>Undefined_behaviour\<close> there and says nothing more.\<close>

record world =
  heap :: "nat \<Rightarrow> LlamaHandle option"
  engine_log :: "engine_call list"

datatype 'a result = Undefined_behaviour | Done 'a

text \<open>The engine calls of \<open>wrapper_free\<close> on a live handle.  \<open>handle->batch.token\<close> is
  non-null when the batch has slots; \<open>ctx\<close> and \<open>model\<close> are set on every handle of
  \<open>wrapper_init\<close>, so their null checks pass.\<close>

definition free_calls :: "LlamaHandle \<Rightarrow> engine_call list" where
  "free_calls handle =
     (if smpl handle \<noteq> None then [Sampler_free] else []) @
     (if slots (batch handle) \<noteq> [] then [Batch_free] else []) @
     [Context_free, Model_free, Delete_handle, Backend_free]"

definition wrapper_free :: "world \<Rightarrow> nat \<Rightarrow> world result" where
  "wrapper_free w handle_ptr =
     (if handle_ptr = 0 then Done w
      else
        (case heap w handle_ptr of
           None \<Rightarrow> Undefined_behaviour
         | Some handle \<Rightarrow>
             Done \<lparr>heap = (heap w)(handle_ptr := None),
                   engine_log = engine_log w @ free_calls handle\<rparr>))"

definition wrapper_get_next_token ::
  "world \<Rightarrow> nat \<Rightarrow> cfloat \<Rightarrow> cfloat \<Rightarrow> step_env \<Rightarrow> (int \<times> world) result" where
  "wrapper_get_next_token w handle_ptr temp top_p env =
     (if handle_ptr = 0 then Done (- 1, w)
      else
        (case heap w handle_ptr of
           None \<Rightarrow> Undefined_behaviour
         | Some handle \<Rightarrow>
             (case get_next_token handle temp top_p env of
                (r, h', cs) \<Rightarrow>
                  Done (r, \<lparr>heap = (heap w)(handle_ptr := Some h'),
                            engine_log = engine_log w @ cs\<rparr>))))"

definition wrapper_prepare_prompt ::
  "world \<Rightarrow> nat \<Rightarrow> prep_env \<Rightarrow> (bool \<times> world) result option" where
  "wrapper_prepare_prompt w handle_ptr env =
     (if handle_ptr = 0 then Some (Done (False, w))
      else
        (case heap w handle_ptr of
           None \<Rightarrow> Some Undefined_behaviour
         | Some handle \<Rightarrow>
             (case prepare_prompt handle env of
                None \<Rightarrow> None
              | Some (ok, h', cs) \<Rightarrow>
                  Some (Done (ok, \<lparr>heap = (heap w)(handle_ptr := Some h'),
                                   engine_log = engine_log w @ cs\<rparr>)))))"

subsection \<open>Sequences of calls on one handle\<close>

datatype op = Prepare prep_env | Next_token cfloat cfloat step_env

text \<open>The handle after a sequence of calls; \<open>None\<close> if one of them does not return.\<close>

fun run :: "LlamaHandle \<Rightarrow> op list \<Rightarrow> LlamaHandle option" where
  "run handle [] = Some handle"
| "run handle (Prepare env # ops) =
     (case prepare_prompt handle env of
        None \<Rightarrow> None
      | Some (ok, h', cs) \<Rightarrow> run h' ops)"
| "run handle (Next_token temp top_p env # ops) =
     (case get_next_token handle temp top_p env of (r, h', cs) \<Rightarrow> run h' ops)"

text \<open>A call has advanced the engine when it made a \<open>llama_decode\<close> call that
  returned 0.\<close>

fun accepted_call :: "engine_call \<Rightarrow> bool" where
  "accepted_call (Decode b r) = (r = 0)"
| "accepted_call _ = False"

definition advanced :: "engine_call list \<Rightarrow> bool" where
  "advanced cs = list_ex accepted_call cs"

fun is_sample :: "engine_call \<Rightarrow> bool" where
  "is_sample (Sampler_sample t) = True"
| "is_sample _ = False"

fun is_decode :: "engine_call \<Rightarrow> bool" where
  "is_decode (Decode b r) = True"
| "is_decode _ = False"

text \<open>Successive \<open>wrapper_get_next_token\<close> calls: the returned values with the engine
  calls of each, and the handle at the end.\<close>

fun generate ::
  "LlamaHandle \<Rightarrow> (cfloat \<times> cfloat \<times> step_env) list
     \<Rightarrow> (int \<times> engine_call list) list \<times> LlamaHandle" where
  "generate handle [] = ([], handle)"
| "generate handle ((temp, top_p, env) # reqs) =
     (case get_next_token handle temp top_p env of
        (r, h', cs) \<Rightarrow>
          (case generate h' reqs of (outs, h'') \<Rightarrow> ((r, cs) # outs, h'')))"


section \<open>Vocabulary of the properties\<close>

text \<open>The fields a call may not touch when it only moves the cursor.\<close>

definition same_session :: "LlamaHandle \<Rightarrow> LlamaHandle \<Rightarrow> bool" where
  "same_session h h' =
     (is_prepared h' = is_prepared h \<and> batch_size h' = batch_size h \<and> ctx h' = ctx h \<and>
      model h' = model h \<and> smpl h' = smpl h \<and> n_prompt h' = n_prompt h \<and>
      n_gen h' = n_gen h \<and> max_new_tokens h' = max_new_tokens h \<and>
      last_temp h' = last_temp h \<and> last_top_p h' = last_top_p h)"

text \<open>The bookkeeping of the session: position cursor, prompt token count, generated
  token count, generation limit and readiness.\<close>

definition counters :: "LlamaHandle \<Rightarrow> int \<times> int \<times> int \<times> int \<times> bool" where
  "counters h = (n_cur h, n_prompt h, n_gen h, max_new_tokens h, is_prepared h)"

text \<open>Concrete inputs used to instantiate the theorems: a handle as \<open>wrapper_init\<close>
  returns it for a context of 256 tokens, and prompts of 130, 50 and 1 tokens.\<close>

definition demo_init :: init_env where
  "demo_init = \<lparr>model_loads = True, context_inits = True, context_size = 256\<rparr>"

definition demo_handle :: LlamaHandle where
  "demo_handle = the (fst (wrapper_init ''model.gguf'' 256 4 True demo_init))"

definition long_prompt :: prep_env where
  "long_prompt = \<lparr>prompt_len = 400, prompt_tokens = replicate 130 7, chunk_rc = (\<lambda>i. 0)\<rparr>"

definition demo_step :: step_env where
  "demo_step = \<lparr>chain_ok = True, sampled = 42, piece_n = 2, piece_text = ''hi'',
                 is_eog = False, decode_rc = 0\<rparr>"

definition short_prompt :: prep_env where
  "short_prompt = \<lparr>prompt_len = 11, prompt_tokens = [1, 15043, 3186], chunk_rc = (\<lambda>i. 0)\<rparr>"

definition demo_ops :: "op list" where
  "demo_ops = [Prepare short_prompt,
               Next_token (FNum (4 / 5)) (FNum (9 / 10)) demo_step,
               Next_token (FNum (4 / 5)) (FNum (9 / 10)) demo_step]"

text \<open>The text in \<open>out_buf\<close> as C reads it: the bytes before the first NUL.\<close>

definition decoded_text :: "step_env \<Rightarrow> string" where
  "decoded_text env = c_str (out_buf_of env)"

definition prepared_handle :: LlamaHandle where
  "prepared_handle = the (run demo_handle [Prepare short_prompt])"

definition marker_step :: step_env where
  "marker_step = \<lparr>chain_ok = True, sampled = 32001, piece_n = 16,
                   piece_text = ''<|im_start|>user'', is_eog = False, decode_rc = 0\<rparr>"

text \<open>How many of a series of next-token calls had their token accepted by the engine.\<close>

definition submissions :: "(int \<times> engine_call list) list \<Rightarrow> nat" where
  "submissions outs = length (filter (\<lambda>out. advanced (snd out)) outs)"

definition prompt50 :: prep_env where
  "prompt50 = \<lparr>prompt_len = 180, prompt_tokens = replicate 50 7, chunk_rc = (\<lambda>i. 0)\<rparr>"

definition refused_prompt :: prep_env where
  "refused_prompt = \<lparr>prompt_len = 180, prompt_tokens = replicate 50 7, chunk_rc = (\<lambda>i. 1)\<rparr>"

text \<open>A context of 144 tokens and a prompt of one token: the limit is
  \<open>max 16 (144 - 1 - 128) = 16\<close>, reached after sixteen accepted tokens.\<close>

definition small_init :: init_env where
  "small_init = \<lparr>model_loads = True, context_inits = True, context_size = 144\<rparr>"

definition small_handle :: LlamaHandle where
  "small_handle = the (fst (wrapper_init ''model.gguf'' 144 4 True small_init))"

definition bos_prompt :: prep_env where
  "bos_prompt = \<lparr>prompt_len = 0, prompt_tokens = [1], chunk_rc = (\<lambda>i. 0)\<rparr>"

definition sixteen_steps :: "(cfloat \<times> cfloat \<times> step_env) list" where
  "sixteen_steps = replicate 16 (FNum (4 / 5), FNum (9 / 10), demo_step)"

definition limit_handle :: LlamaHandle where
  "limit_handle = snd (generate (the (run small_handle [Prepare bos_prompt])) sixteen_steps)"

definition no_chain_step :: step_env where
  "no_chain_step = \<lparr>chain_ok = False, sampled = 42, piece_n = 2, piece_text = ''hi'',
                     is_eog = False, decode_rc = 0\<rparr>"

definition empty_step :: step_env where
  "empty_step = \<lparr>chain_ok = True, sampled = 2, piece_n = 0, piece_text = [],
                  is_eog = False, decode_rc = 0\<rparr>"

definition cut_step :: step_env where
  "cut_step = \<lparr>chain_ok = True, sampled = 9, piece_n = - 3, piece_text = [],
                is_eog = False, decode_rc = 0\<rparr>"

text \<open>A heap with one live handle at address 1, and the heap after its release.\<close>

definition demo_world :: world where
  "demo_world = \<lparr>heap = (\<lambda>a. if a = 1 then Some demo_handle else None), engine_log = []\<rparr>"

definition released_world :: world where
  "released_world =
     (case wrapper_free demo_world 1 of Done w \<Rightarrow> w | Undefined_behaviour \<Rightarrow> demo_world)"

text \<open>A context of 512 tokens and a prompt of 200 tokens, pre-filled in two chunks (at
  token 0 and at token 128); the engine refuses the second chunk.\<close>

definition big_init :: init_env where
  "big_init = \<lparr>model_loads = True, context_inits = True, context_size = 512\<rparr>"

definition big_handle :: LlamaHandle where
  "big_handle = the (fst (wrapper_init ''model.gguf'' 512 4 True big_init))"

definition two_chunk_prompt :: prep_env where
  "two_chunk_prompt = \<lparr>prompt_len = 900, prompt_tokens = replicate 200 7,
                        chunk_rc = (\<lambda>i. if i = 128 then 1 else 0)\<rparr>"

text \<open>A handle that has generated one token, so that it owns a sampler, live at
  address 1, and the heap after its release.\<close>

definition sampling_handle :: LlamaHandle where
  "sampling_handle =
     fst (snd (get_next_token prepared_handle (FNum (4 / 5)) (FNum (9 / 10)) demo_step))"

definition sampling_world :: world where
  "sampling_world =
     \<lparr>heap = (\<lambda>a. if a = 1 then Some sampling_handle else None), engine_log = []\<rparr>"

definition sampling_released :: world where
  "sampling_released =
     (case wrapper_free sampling_world 1 of Done w \<Rightarrow> w
      | Undefined_behaviour \<Rightarrow> sampling_world)"


section \<open>Auxiliary facts\<close>

lemma set_slot_batch_update:
  "(set_slot tokens i n_eval j h)\<lparr>batch := X\<rparr> = h\<lparr>batch := X\<rparr>"
  by (simp add: set_slot_def)

lemma fold_set_slot_frame:
  "fold (set_slot tokens i n_eval) js h = h\<lparr>batch := batch (fold (set_slot tokens i n_eval) js h)\<rparr>"
proof (induction js arbitrary: h)
  case Nil
  show ?case by simp
next
  case (Cons j js)
  have "fold (set_slot tokens i n_eval) (j # js) h
        = fold (set_slot tokens i n_eval) js (set_slot tokens i n_eval j h)" by simp
  also have "\<dots> = (set_slot tokens i n_eval j h)
        \<lparr>batch := batch (fold (set_slot tokens i n_eval) js (set_slot tokens i n_eval j h))\<rparr>"
    by (rule Cons.IH)
  finally show ?case by (simp only: set_slot_batch_update fold_simps)
qed

lemma fill_chunk_frame:
  "fill_chunk tokens i n_eval h = h\<lparr>batch := batch (fill_chunk tokens i n_eval h)\<rparr>"
  unfolding fill_chunk_def
  using fold_set_slot_frame [of tokens i n_eval "[0..<nat n_eval]" "reset_batch_positions h"]
  by (simp add: reset_batch_positions_def)

lemma fill_chunk_fields:
  "n_cur (fill_chunk tokens i n_eval h) = n_cur h"
  "is_prepared (fill_chunk tokens i n_eval h) = is_prepared h"
  "batch_size (fill_chunk tokens i n_eval h) = batch_size h"
  "ctx (fill_chunk tokens i n_eval h) = ctx h"
  "smpl (fill_chunk tokens i n_eval h) = smpl h"
  "n_prompt (fill_chunk tokens i n_eval h) = n_prompt h"
  "n_gen (fill_chunk tokens i n_eval h) = n_gen h"
  "max_new_tokens (fill_chunk tokens i n_eval h) = max_new_tokens h"
  "last_temp (fill_chunk tokens i n_eval h) = last_temp h"
  "last_top_p (fill_chunk tokens i n_eval h) = last_top_p h"
  "model (fill_chunk tokens i n_eval h) = model h"
  by (subst fill_chunk_frame, simp)+

lemma prefill_returns:
  assumes bs: "0 < batch_size h"
  shows "\<exists>ok h' cs. prefill h toks n rc i acc = Some (ok, h', cs) \<and> same_session h h' \<and>
           n_cur h \<le> n_cur h' \<and> n_cur h' \<le> n_cur h + max 0 (n - i) \<and>
           (ok \<longrightarrow> n_cur h' = n_cur h + max 0 (n - i)) \<and>
           ((\<forall>k. rc k = 0) \<longrightarrow> ok)"
  using bs
proof (induction "nat (n - i)" arbitrary: h i acc rule: less_induct)
  case less
  show ?case
  proof (cases "i < n")
    case False
    then show ?thesis
      by (subst prefill.simps) (auto simp: same_session_def)
  next
    case True
    define n_eval where "n_eval = (if n - i > batch_size h then batch_size h else n - i)"
    define h1 where "h1 = fill_chunk toks i n_eval h"
    define acc1 where "acc1 = acc @ [Decode (submitted (batch h1)) (rc i)]"
    have ne: "0 < n_eval" "n_eval \<le> n - i"
      using True less.prems by (auto simp: n_eval_def)
    have h1: "same_session h h1" "n_cur h1 = n_cur h"
      by (simp_all add: h1_def same_session_def fill_chunk_fields)
    have unfold: "prefill h toks n rc i acc =
        (if rc i \<noteq> 0 then Some (False, h1, acc1)
         else prefill (h1\<lparr>n_cur := n_cur h1 + n_eval\<rparr>) toks n rc (i + batch_size h) acc1)"
      using True by (subst prefill.simps) (simp add: Let_def n_eval_def h1_def acc1_def)
    show ?thesis
    proof (cases "rc i = 0")
      case False
      then show ?thesis using h1 unfold by auto
    next
      case rc0: True
      let ?h2 = "h1\<lparr>n_cur := n_cur h1 + n_eval\<rparr>"
      have m: "nat (n - (i + batch_size h)) < nat (n - i)"
        using True less.prems by simp
      have b2: "0 < batch_size ?h2"
        using h1 less.prems by (simp add: same_session_def)
      from less.hyps [OF m b2, of acc1]
      obtain ok h' cs where r:
        "prefill ?h2 toks n rc (i + batch_size h) acc1 = Some (ok, h', cs)"
        "same_session ?h2 h'"
        "n_cur ?h2 \<le> n_cur h'"
        "n_cur h' \<le> n_cur ?h2 + max 0 (n - (i + batch_size h))"
        "ok \<longrightarrow> n_cur h' = n_cur ?h2 + max 0 (n - (i + batch_size h))"
        "(\<forall>k. rc k = 0) \<longrightarrow> ok"
        by blast
      have s: "same_session h h'"
        using r(2) h1(1) by (simp add: same_session_def)
      have e: "n_eval + max 0 (n - (i + batch_size h)) = max 0 (n - i)"
        using True less.prems by (auto simp: n_eval_def)
      have "prefill h toks n rc i acc = Some (ok, h', cs)"
        using unfold rc0 r(1) by simp
      moreover have "n_cur h \<le> n_cur h'" using r(3) h1(2) ne by simp
      moreover have "n_cur h' \<le> n_cur h + max 0 (n - i)" using r(4) h1(2) e by simp
      moreover have "ok \<longrightarrow> n_cur h' = n_cur h + max 0 (n - i)" using r(5) h1(2) e by simp
      ultimately show ?thesis using s r(6) by blast
    qed
  qed
qed

lemma tokenize_two_phase:
  "(if llama_tokenize toks cap < 0 then llama_tokenize toks (nat (- llama_tokenize toks cap))
    else llama_tokenize toks cap) = int (length toks)"
  by (simp add: llama_tokenize_def)

lemma prepare_prompt_returns:
  assumes bs: "0 < batch_size h"
  shows "\<exists>ok h' cs. prepare_prompt h env = Some (ok, h', cs) \<and>
           batch_size h' = batch_size h \<and> ctx h' = ctx h \<and> model h' = model h \<and>
           smpl h' = smpl h \<and> last_temp h' = last_temp h \<and> last_top_p h' = last_top_p h \<and>
           is_prepared h' = ok \<and>
           (int (length (prompt_tokens env)) \<ge> llama_n_ctx (ctx h) - 128 \<longrightarrow>
              \<not> ok \<and> n_cur h' = n_cur h) \<and>
           (int (length (prompt_tokens env)) < llama_n_ctx (ctx h) - 128 \<longrightarrow>
              0 \<le> n_cur h' \<and> n_cur h' \<le> int (length (prompt_tokens env)) \<and>
              ((\<forall>k. chunk_rc env k = 0) \<longrightarrow> ok)) \<and>
           (ok \<longrightarrow> n_cur h' = int (length (prompt_tokens env)) \<and>
              n_prompt h' = int (length (prompt_tokens env)) \<and> n_gen h' = 0 \<and>
              max_new_tokens h' =
                max 16 (llama_n_ctx (ctx h) - int (length (prompt_tokens env)) - 128))"
proof -
  let ?T = "int (length (prompt_tokens env))"
  define h0 where "h0 = h\<lparr>is_prepared := False, n_cur := 0\<rparr>"
  define toks where "toks = take (nat ?T) (prompt_tokens env)"
  have b0: "0 < batch_size h0" using bs by (simp add: h0_def)
  from prefill_returns [OF b0, of toks ?T "chunk_rc env" 0 "[Memory_clear]"]
  obtain ok h1 cs where r:
    "prefill h0 toks ?T (chunk_rc env) 0 [Memory_clear] = Some (ok, h1, cs)"
    "same_session h0 h1" "n_cur h0 \<le> n_cur h1" "n_cur h1 \<le> n_cur h0 + max 0 (?T - 0)"
    "ok \<longrightarrow> n_cur h1 = n_cur h0 + max 0 (?T - 0)" "(\<forall>k. chunk_rc env k = 0) \<longrightarrow> ok"
    by blast
  have u: "prepare_prompt h env =
      (if ?T \<ge> llama_n_ctx (ctx h) - 128 then Some (False, h\<lparr>is_prepared := False\<rparr>, [Memory_clear])
       else if \<not> ok then Some (False, h1, cs)
       else Some (True, h1\<lparr>n_prompt := n_cur h1, n_gen := 0,
                   max_new_tokens := max 16 (llama_n_ctx (ctx h) - n_cur h1 - 128),
                   is_prepared := True\<rparr>,
                 cs @ (if smpl h1 \<noteq> None then [Sampler_reset] else [])))"
    using r(1)
    by (simp add: prepare_prompt_def Let_def tokenize_two_phase h0_def toks_def)
  show ?thesis
  proof (cases "?T \<ge> llama_n_ctx (ctx h) - 128")
    case True
    then show ?thesis using u by auto
  next
    case False
    show ?thesis
    proof (cases ok)
      case True
      then show ?thesis using u False r(2,5)
        by (auto simp: same_session_def h0_def)
    next
      case nok: False
      then show ?thesis using u False r(2,3,4,6)
        by (auto simp: same_session_def h0_def)
    qed
  qed
qed

lemma ensure_sampler_frame:
  "ensure_sampler h t p c = (ok, h', cs) \<Longrightarrow>
     counters h' = counters h \<and> ctx h' = ctx h \<and> batch_size h' = batch_size h \<and>
     batch h' = batch h \<and> model h' = model h \<and> \<not> list_ex is_decode cs \<and> \<not> list_ex is_sample cs"
  by (auto simp: ensure_sampler_def counters_def Let_def sampler_chain_def split: if_splits)

lemma advanced_append: "advanced (xs @ ys) = (advanced xs \<or> advanced ys)"
  by (auto simp: advanced_def list_ex_iff)

lemma ensure_sampler_not_advanced:
  "ensure_sampler h t p c = (ok, h', cs) \<Longrightarrow> \<not> advanced cs"
  by (auto simp: ensure_sampler_def advanced_def Let_def sampler_chain_def split: if_splits)

lemma get_next_token_unfold:
  assumes e: "ensure_sampler h t p (chain_ok env) = (ok, h1, c1)"
  shows "get_next_token h t p env =
     (if \<not> is_prepared h then (- 2, h, [])
      else if \<not> ok then (- 3, h1, c1)
      else if n_cur h \<ge> llama_n_ctx (ctx h) - 4 then (0, h1, c1)
      else if n_gen h \<ge> max_new_tokens h then (0, h1, c1)
      else if piece_n env > 0 \<and> stop_sequence (out_buf_of env)
        then (0, h1, c1 @ [Sampler_sample (sampled env)])
      else if is_eog env then (0, h1, c1 @ [Sampler_sample (sampled env)])
      else if decode_rc env \<noteq> 0
        then (- 4, single_batch h1 (sampled env),
              c1 @ [Sampler_sample (sampled env),
                    Decode (submitted (batch (single_batch h1 (sampled env)))) (decode_rc env)])
      else (piece_n env,
            (single_batch h1 (sampled env))\<lparr>n_cur := n_cur h + 1, n_gen := n_gen h + 1\<rparr>,
            c1 @ [Sampler_sample (sampled env),
                  Decode (submitted (batch (single_batch h1 (sampled env)))) 0]))"
proof -
  from ensure_sampler_frame [OF e]
  have f: "n_cur h1 = n_cur h" "n_gen h1 = n_gen h" "max_new_tokens h1 = max_new_tokens h"
    "ctx h1 = ctx h"
    by (simp_all add: counters_def)
  show ?thesis
    by (simp add: get_next_token_def e Let_def f single_batch_def)
qed

lemma get_next_token_frame:
  assumes "get_next_token h t p env = (r, h', cs)"
  shows "ctx h' = ctx h" "batch_size h' = batch_size h" "model h' = model h"
    "n_prompt h' = n_prompt h" "max_new_tokens h' = max_new_tokens h"
    "is_prepared h' = is_prepared h"
proof -
  obtain ok h1 c1 where e: "ensure_sampler h t p (chain_ok env) = (ok, h1, c1)"
    by (cases "ensure_sampler h t p (chain_ok env)") auto
  note f = ensure_sampler_frame [OF e]
  show "ctx h' = ctx h" "batch_size h' = batch_size h" "model h' = model h"
    "n_prompt h' = n_prompt h" "max_new_tokens h' = max_new_tokens h"
    "is_prepared h' = is_prepared h"
    using assms f unfolding get_next_token_unfold [OF e]
    by (auto simp: counters_def single_batch_def split: if_splits)
qed

lemma get_next_token_advanced:
  assumes "get_next_token h t p env = (r, h', cs)" and "advanced cs"
  shows "n_cur h' = n_cur h + 1 \<and> n_gen h' = n_gen h + 1 \<and> r = piece_n env \<and>
         is_prepared h \<and> n_cur h < llama_n_ctx (ctx h) - 4 \<and> n_gen h < max_new_tokens h \<and>
         \<not> is_eog env \<and> \<not> (piece_n env > 0 \<and> stop_sequence (out_buf_of env)) \<and>
         decode_rc env = 0"
proof -
  obtain ok h1 c1 where e: "ensure_sampler h t p (chain_ok env) = (ok, h1, c1)"
    by (cases "ensure_sampler h t p (chain_ok env)") auto
  have na: "\<not> advanced c1" by (rule ensure_sampler_not_advanced [OF e])
  have na': "\<not> advanced []" "\<not> advanced [Sampler_sample (sampled env)]"
    by (simp_all add: advanced_def)
  show ?thesis
    using assms na na' unfolding get_next_token_unfold [OF e]
    by (auto simp: advanced_append advanced_def split: if_splits)
qed

lemma get_next_token_not_advanced:
  assumes "get_next_token h t p env = (r, h', cs)" and "\<not> advanced cs"
  shows "n_cur h' = n_cur h \<and> n_gen h' = n_gen h \<and> (r = 0 \<or> r = - 2 \<or> r = - 3 \<or> r = - 4)"
proof -
  obtain ok h1 c1 where e: "ensure_sampler h t p (chain_ok env) = (ok, h1, c1)"
    by (cases "ensure_sampler h t p (chain_ok env)") auto
  note f = ensure_sampler_frame [OF e]
  show ?thesis
    using assms f unfolding get_next_token_unfold [OF e]
    by (auto simp: advanced_append advanced_def counters_def single_batch_def split: if_splits)
qed

lemma get_next_token_at_limit:
  assumes "get_next_token h t p env = (r, h', cs)" and "is_prepared h"
    and "n_gen h \<ge> max_new_tokens h \<or> n_cur h \<ge> llama_n_ctx (ctx h) - 4"
  shows "r = (if fst (ensure_sampler h t p (chain_ok env)) then 0 else - 3) \<and>
         counters h' = counters h \<and> \<not> list_ex is_decode cs \<and> \<not> list_ex is_sample cs"
proof -
  obtain ok h1 c1 where e: "ensure_sampler h t p (chain_ok env) = (ok, h1, c1)"
    by (cases "ensure_sampler h t p (chain_ok env)") auto
  note f = ensure_sampler_frame [OF e]
  show ?thesis
    using assms f unfolding get_next_token_unfold [OF e] e
    by (auto split: if_splits)
qed

lemma demo_handle_fields:
  "batch_size demo_handle = 128" "ctx demo_handle = Context 256" "smpl demo_handle = None"
  "n_cur demo_handle = 0" "is_prepared demo_handle = False" "n_gen demo_handle = 0"
  "n_prompt demo_handle = 0" "max_new_tokens demo_handle = 128"
  by (simp_all add: demo_handle_def wrapper_init_def demo_init_def Let_def)

lemma generate_not_prepared:
  "\<not> is_prepared h \<Longrightarrow> generate h reqs = (map (\<lambda>q. (- 2, [])) reqs, h)"
  by (induction reqs) (auto simp: get_next_token_def)

lemma wrapper_init_handle:
  assumes "wrapper_init path cs th mm env = (Some h0, c0)"
  shows "0 < batch_size h0" "batch_size h0 \<le> 128" "n_cur h0 = 0" "\<not> is_prepared h0"
    "ctx h0 = Context (context_size env)" "smpl h0 = None"
  using assms by (auto simp: wrapper_init_def Let_def split: if_splits)

lemma demo_handle_init:
  "wrapper_init ''model.gguf'' 256 4 True demo_init =
     (Some demo_handle, [Backend_init, Model_load ''model.gguf'' True, Init_from_model, Batch_init 128])"
  by (simp add: demo_handle_def wrapper_init_def demo_init_def Let_def)

lemma run_invariant:
  assumes "0 < batch_size h0" "0 \<le> n_cur h0"
    "is_prepared h0 \<longrightarrow> n_cur h0 = n_prompt h0 + n_gen h0"
  shows "\<exists>h. run h0 ops = Some h \<and> ctx h = ctx h0 \<and> batch_size h = batch_size h0 \<and>
           0 \<le> n_cur h \<and> (n_cur h0 < llama_n_ctx (ctx h0) \<longrightarrow> n_cur h < llama_n_ctx (ctx h)) \<and>
           (is_prepared h \<longrightarrow> n_cur h = n_prompt h + n_gen h)"
  using assms
proof (induction ops arbitrary: h0)
  case Nil
  then show ?case by simp
next
  case (Cons a ops)
  show ?case
  proof (cases a)
    case (Prepare env)
    from prepare_prompt_returns [OF Cons.prems(1), of env]
    obtain ok h1 cs where r: "prepare_prompt h0 env = Some (ok, h1, cs)"
      "batch_size h1 = batch_size h0" "ctx h1 = ctx h0" "is_prepared h1 = ok"
      "int (length (prompt_tokens env)) \<ge> llama_n_ctx (ctx h0) - 128 \<longrightarrow> \<not> ok \<and> n_cur h1 = n_cur h0"
      "int (length (prompt_tokens env)) < llama_n_ctx (ctx h0) - 128 \<longrightarrow>
         0 \<le> n_cur h1 \<and> n_cur h1 \<le> int (length (prompt_tokens env))"
      "ok \<longrightarrow> n_cur h1 = int (length (prompt_tokens env)) \<and>
         n_prompt h1 = int (length (prompt_tokens env)) \<and> n_gen h1 = 0"
      by blast
    have p: "0 < batch_size h1" "0 \<le> n_cur h1"
      "is_prepared h1 \<longrightarrow> n_cur h1 = n_prompt h1 + n_gen h1"
      "n_cur h0 < llama_n_ctx (ctx h0) \<longrightarrow> n_cur h1 < llama_n_ctx (ctx h1)"
      using r Cons.prems by auto
    from Cons.IH [OF p(1,2,3)] obtain h where
      "run h1 ops = Some h" "ctx h = ctx h1" "batch_size h = batch_size h1" "0 \<le> n_cur h"
      "n_cur h1 < llama_n_ctx (ctx h1) \<longrightarrow> n_cur h < llama_n_ctx (ctx h)"
      "is_prepared h \<longrightarrow> n_cur h = n_prompt h + n_gen h"
      by blast
    then show ?thesis using Prepare r p by simp
  next
    case (Next_token t p env)
    obtain r h1 cs where g: "get_next_token h0 t p env = (r, h1, cs)"
      by (cases "get_next_token h0 t p env") auto
    note f = get_next_token_frame [OF g]
    have c: "n_cur h1 = n_cur h0 + 1 \<and> n_gen h1 = n_gen h0 + 1 \<and>
               n_cur h0 < llama_n_ctx (ctx h0) - 4 \<or>
             n_cur h1 = n_cur h0 \<and> n_gen h1 = n_gen h0"
      using get_next_token_advanced [OF g] get_next_token_not_advanced [OF g] by blast
    have q: "0 < batch_size h1" "0 \<le> n_cur h1"
      "is_prepared h1 \<longrightarrow> n_cur h1 = n_prompt h1 + n_gen h1"
      "n_cur h0 < llama_n_ctx (ctx h0) \<longrightarrow> n_cur h1 < llama_n_ctx (ctx h1)"
      using f c Cons.prems by auto
    from Cons.IH [OF q(1,2,3)] obtain h where
      "run h1 ops = Some h" "ctx h = ctx h1" "batch_size h = batch_size h1" "0 \<le> n_cur h"
      "n_cur h1 < llama_n_ctx (ctx h1) \<longrightarrow> n_cur h < llama_n_ctx (ctx h)"
      "is_prepared h \<longrightarrow> n_cur h = n_prompt h + n_gen h"
      by blast
    then show ?thesis using Next_token g f q by simp
  qed
qed

lemmas eval_defs =
  demo_handle_def wrapper_init_def demo_init_def
  prepare_prompt_def prefill.simps Let_def llama_tokenize_def fill_chunk_fields get_next_token_def ensure_sampler_def feq_def
  stop_sequence_def strstr_def c_str_def out_buf_of_def single_batch_def

lemma find_from_sublist: "find_from hay needle = sublist needle hay"
  by (induction hay) (simp_all add: sublist_Cons_right)

lemma strstr_sublist: "strstr buf needle = sublist needle (c_str buf)"
  by (simp add: strstr_def find_from_sublist)

lemma stop_sequence_markers:
  "stop_sequence buf = (\<exists>m \<in> set stop_markers. sublist m (c_str buf))"
  by (simp add: stop_sequence_def stop_markers_def strstr_sublist)

lemma decoded_text_empty: "piece_n env \<le> 0 \<Longrightarrow> decoded_text env = []"
  by (simp add: decoded_text_def out_buf_of_def c_str_def)

lemma prepared_handle_fields:
  "is_prepared prepared_handle" "n_cur prepared_handle = 3" "n_gen prepared_handle = 0"
  "n_prompt prepared_handle = 3" "max_new_tokens prepared_handle = 125"
  "ctx prepared_handle = Context 256" "smpl prepared_handle = None"
  "batch_size prepared_handle = 128"
  by (simp_all add: prepared_handle_def short_prompt_def eval_defs)

lemma ensure_sampler_rebuild:
  assumes "ensure_sampler h temp top_p c = (ok, h', cs)"
  shows "count_list cs Sampler_chain_init =
           (if smpl h \<noteq> None \<and> feq temp (last_temp h) \<and> feq top_p (last_top_p h) then 0 else 1)"
    and "count_list cs Sampler_reset =
           (if smpl h \<noteq> None \<and> feq temp (last_temp h) \<and> feq top_p (last_top_p h) then 1 else 0)"
    and "smpl h \<noteq> None \<and> feq temp (last_temp h) \<and> feq top_p (last_top_p h) \<Longrightarrow>
           cs = [Sampler_reset] \<and> h' = h \<and> ok"
    and "ok \<Longrightarrow> smpl h' \<noteq> None \<and> last_temp h' = temp \<and> last_top_p h' = top_p"
    and "ok = (c \<or> smpl h \<noteq> None \<and> feq temp (last_temp h) \<and> feq top_p (last_top_p h))"
  using assms
  by (auto simp: ensure_sampler_def Let_def sampler_chain_def feq_def split: if_splits)

lemma get_next_token_sampler:
  assumes g: "get_next_token h temp top_p env = (r, h', cs)" and p: "is_prepared h"
    and e: "ensure_sampler h temp top_p (chain_ok env) = (ok, h1, c1)"
  shows "count_list cs Sampler_chain_init = count_list c1 Sampler_chain_init"
    "count_list cs Sampler_reset = count_list c1 Sampler_reset"
    "smpl h' = smpl h1" "last_temp h' = last_temp h1" "last_top_p h' = last_top_p h1"
  using g p unfolding get_next_token_unfold [OF e]
  by (auto simp: single_batch_def split: if_splits)

lemma sixteen_steps_list:
  "sixteen_steps =
     (let s = (FNum (4 / 5), FNum (9 / 10), demo_step)
      in [s, s, s, s, s, s, s, s, s, s, s, s, s, s, s, s])"
  by (simp add: sixteen_steps_def numeral_eq_Suc Let_def)

lemma small_handle_init:
  "wrapper_init ''model.gguf'' 144 4 True small_init =
     (Some small_handle, [Backend_init, Model_load ''model.gguf'' True, Init_from_model, Batch_init 128])"
  by (simp add: small_handle_def wrapper_init_def small_init_def Let_def)

lemma small_prepared_fields:
  "is_prepared (the (run small_handle [Prepare bos_prompt]))"
  "n_gen (the (run small_handle [Prepare bos_prompt])) = 0"
  "max_new_tokens (the (run small_handle [Prepare bos_prompt])) = 16"
  "n_cur (the (run small_handle [Prepare bos_prompt])) = 1"
  by (simp_all add: small_handle_def small_init_def bos_prompt_def wrapper_init_def
      prepare_prompt_def prefill.simps Let_def llama_tokenize_def fill_chunk_fields)

lemma limit_handle_fields:
  "is_prepared limit_handle" "n_gen limit_handle = 16" "max_new_tokens limit_handle = 16"
  "n_cur limit_handle = 17" "n_prompt limit_handle = 1" "ctx limit_handle = Context 144"
  "smpl limit_handle = Some (sampler_chain (FNum (4 / 5)) (FNum (9 / 10)))"
  "last_temp limit_handle = FNum (4 / 5)" "last_top_p limit_handle = FNum (9 / 10)"
  by (simp_all add: limit_handle_def sixteen_steps_list small_handle_def small_init_def bos_prompt_def
      demo_step_def wrapper_init_def
  prepare_prompt_def prefill.simps Let_def llama_tokenize_def fill_chunk_fields
  get_next_token_def ensure_sampler_def feq_def
  stop_sequence_def strstr_def c_str_def out_buf_of_def single_batch_def)

lemma run_limit_invariant:
  assumes "0 < batch_size h0" "is_prepared h0 \<longrightarrow> n_gen h0 \<le> max_new_tokens h0"
    "run h0 ops = Some h"
  shows "is_prepared h \<longrightarrow> n_gen h \<le> max_new_tokens h"
  using assms
proof (induction ops arbitrary: h0)
  case Nil
  then show ?case by simp
next
  case (Cons a ops)
  show ?case
  proof (cases a)
    case (Prepare env)
    from prepare_prompt_returns [OF Cons.prems(1), of env]
    obtain ok h1 cs where r: "prepare_prompt h0 env = Some (ok, h1, cs)"
      "batch_size h1 = batch_size h0" "is_prepared h1 = ok"
      "ok \<longrightarrow> n_gen h1 = 0 \<and> max_new_tokens h1 =
         max 16 (llama_n_ctx (ctx h0) - int (length (prompt_tokens env)) - 128)"
      by blast
    have "0 < batch_size h1" "is_prepared h1 \<longrightarrow> n_gen h1 \<le> max_new_tokens h1"
      using r Cons.prems by auto
    moreover have "run h1 ops = Some h" using Cons.prems(3) Prepare r by simp
    ultimately show ?thesis by (rule Cons.IH)
  next
    case (Next_token t p env)
    obtain r h1 cs where g: "get_next_token h0 t p env = (r, h1, cs)"
      by (cases "get_next_token h0 t p env") auto
    note f = get_next_token_frame [OF g]
    have "n_gen h1 = n_gen h0 + 1 \<and> n_gen h0 < max_new_tokens h0 \<or> n_gen h1 = n_gen h0"
      using get_next_token_advanced [OF g] get_next_token_not_advanced [OF g] by blast
    then have "0 < batch_size h1" "is_prepared h1 \<longrightarrow> n_gen h1 \<le> max_new_tokens h1"
      using f Cons.prems by auto
    moreover have "run h1 ops = Some h" using Cons.prems(3) Next_token g by simp
    ultimately show ?thesis by (rule Cons.IH)
  qed
qed

lemma submissions_Cons:
  "submissions ((r, cs) # outs) = (if advanced cs then Suc (submissions outs) else submissions outs)"
  by (simp add: submissions_def)

lemma generate_counts:
  "generate h reqs = (outs, h') \<Longrightarrow>
     n_gen h' = n_gen h + int (submissions outs) \<and>
     n_cur h' = n_cur h + int (submissions outs) \<and>
     max_new_tokens h' = max_new_tokens h \<and> is_prepared h' = is_prepared h \<and>
     ctx h' = ctx h \<and> n_prompt h' = n_prompt h \<and> batch_size h' = batch_size h \<and>
     (n_gen h \<le> max_new_tokens h \<longrightarrow> n_gen h' \<le> max_new_tokens h)"
proof (induction reqs arbitrary: h outs h')
  case Nil
  then show ?case by (simp add: submissions_def)
next
  case (Cons q reqs)
  obtain t p env where q: "q = (t, p, env)" by (cases q) auto
  obtain r h1 cs where g: "get_next_token h t p env = (r, h1, cs)"
    by (cases "get_next_token h t p env") auto
  obtain outs1 h2 where g2: "generate h1 reqs = (outs1, h2)"
    by (cases "generate h1 reqs") auto
  have o: "outs = (r, cs) # outs1" "h' = h2" using Cons.prems q g g2 by simp_all
  note f = get_next_token_frame [OF g]
  note ih = Cons.IH [OF g2]
  show ?case
  proof (cases "advanced cs")
    case True
    then show ?thesis
      using get_next_token_advanced [OF g True] f ih o by (auto simp: submissions_Cons)
  next
    case False
    then show ?thesis
      using get_next_token_not_advanced [OF g False] f ih o by (auto simp: submissions_Cons)
  qed
qed

lemma generate_at_limit:
  assumes "is_prepared h" "n_gen h \<ge> max_new_tokens h" "generate h reqs = (outs, h')"
  shows "submissions outs = 0 \<and> counters h' = counters h \<and>
         (\<forall>out \<in> set outs. (fst out = 0 \<or> fst out = - 3) \<and>
            \<not> list_ex is_sample (snd out) \<and> \<not> list_ex is_decode (snd out))"
  using assms
proof (induction reqs arbitrary: h outs h')
  case Nil
  then show ?case by (simp add: submissions_def)
next
  case (Cons q reqs)
  obtain t p env where q: "q = (t, p, env)" by (cases q) auto
  obtain r h1 cs where g: "get_next_token h t p env = (r, h1, cs)"
    by (cases "get_next_token h t p env") auto
  obtain outs1 h2 where g2: "generate h1 reqs = (outs1, h2)"
    by (cases "generate h1 reqs") auto
  have o: "outs = (r, cs) # outs1" "h' = h2" using Cons.prems q g g2 by simp_all
  from get_next_token_at_limit [OF g Cons.prems(1)] Cons.prems(2)
  have l: "r = (if fst (ensure_sampler h t p (chain_ok env)) then 0 else - 3)"
    "counters h1 = counters h" "\<not> list_ex is_decode cs" "\<not> list_ex is_sample cs"
    by simp_all
  have na: "\<not> advanced cs"
    using get_next_token_advanced [OF g] Cons.prems(2) by auto
  have p1: "is_prepared h1" "n_gen h1 \<ge> max_new_tokens h1"
    using l(2) Cons.prems by (simp_all add: counters_def)
  from Cons.IH [OF p1 g2] l na o show ?case
    by (auto simp: submissions_Cons)
qed

lemma get_next_token_sampled:
  assumes g: "get_next_token h temp top_p env = (r, h', cs)"
  shows "list_ex is_sample cs \<longleftrightarrow>
           is_prepared h \<and> fst (ensure_sampler h temp top_p (chain_ok env)) \<and>
           n_cur h < llama_n_ctx (ctx h) - 4 \<and> n_gen h < max_new_tokens h"
proof -
  obtain ok h1 c1 where e: "ensure_sampler h temp top_p (chain_ok env) = (ok, h1, c1)"
    by (cases "ensure_sampler h temp top_p (chain_ok env)") auto
  note f = ensure_sampler_frame [OF e]
  show ?thesis
    using g f unfolding get_next_token_unfold [OF e] e
    by (auto split: if_splits)
qed

lemma get_next_token_stopped:
  assumes g: "get_next_token h temp top_p env = (r, h', cs)" and z: "r = 0" and na: "\<not> advanced cs"
  shows "is_prepared h" "counters h' = counters h" "\<not> list_ex is_decode cs"
proof -
  obtain ok h1 c1 where e: "ensure_sampler h temp top_p (chain_ok env) = (ok, h1, c1)"
    by (cases "ensure_sampler h temp top_p (chain_ok env)") auto
  note f = ensure_sampler_frame [OF e]
  have d: "advanced (c1 @ [Sampler_sample (sampled env),
             Decode (submitted (batch (single_batch h1 (sampled env)))) 0])"
    by (simp add: advanced_def)
  show "is_prepared h" "counters h' = counters h" "\<not> list_ex is_decode cs"
    using g z na f d unfolding get_next_token_unfold [OF e]
    by (auto split: if_splits)
qed

lemma demo_step_advances:
  assumes p: "is_prepared h" and c: "n_cur h < llama_n_ctx (ctx h) - 4"
    and l: "n_gen h < max_new_tokens h"
  shows "advanced (snd (snd (get_next_token h temp top_p demo_step)))"
proof -
  obtain ok h1 c1 where e: "ensure_sampler h temp top_p (chain_ok demo_step) = (ok, h1, c1)"
    by (cases "ensure_sampler h temp top_p (chain_ok demo_step)") auto
  have ok using ensure_sampler_rebuild(5) [OF e] by (simp add: demo_step_def)
  moreover have "\<not> stop_sequence (out_buf_of demo_step)"
    by (simp add: stop_sequence_def strstr_def c_str_def out_buf_of_def demo_step_def)
  moreover have "\<not> is_eog demo_step" "decode_rc demo_step = 0" by (simp_all add: demo_step_def)
  ultimately show ?thesis
    using p c l unfolding get_next_token_unfold [OF e]
    by (simp add: advanced_append advanced_def)
qed

lemma generate_demo_steps:
  assumes "is_prepared h" "n_cur h + int k \<le> llama_n_ctx (ctx h) - 4"
    "n_gen h + int k \<le> max_new_tokens h"
  shows "submissions (fst (generate h (replicate k (temp, top_p, demo_step)))) = k"
  using assms
proof (induction k arbitrary: h)
  case 0
  then show ?case by (simp add: submissions_def)
next
  case (Suc k)
  let ?g = "get_next_token h temp top_p demo_step"
  have c: "?g = (fst ?g, fst (snd ?g), snd (snd ?g))" by simp
  have a: "advanced (snd (snd ?g))"
    using demo_step_advances [of h temp top_p] Suc.prems by simp
  note f = get_next_token_frame [OF c] get_next_token_advanced [OF c a]
  have "submissions (fst (generate (fst (snd ?g)) (replicate k (temp, top_p, demo_step)))) = k"
    using f Suc.prems by (intro Suc.IH) simp_all
  then show ?case using a
    by (simp add: split_beta submissions_Cons)
qed

lemma null_handle:
  "wrapper_get_next_token w 0 temp top_p senv = Done (- 1, w)"
  "wrapper_prepare_prompt w 0 env = Some (Done (False, w))"
  "wrapper_free w 0 = Done w"
  by (simp_all add: wrapper_get_next_token_def wrapper_prepare_prompt_def wrapper_free_def)

lemma not_prepared_handle:
  "p \<noteq> 0 \<Longrightarrow> heap w p = Some h \<Longrightarrow> \<not> is_prepared h \<Longrightarrow>
     \<exists>w'. wrapper_get_next_token w p temp top_p senv = Done (- 2, w') \<and> heap w' = heap w"
  by (auto simp: wrapper_get_next_token_def get_next_token_def)

lemma prefill_ok_iff:
  assumes "0 < batch_size h" and "prefill h toks n rc i acc = Some (ok, h', cs)"
  shows "ok \<longleftrightarrow> (\<forall>k::nat. i + int k * batch_size h < n \<longrightarrow> rc (i + int k * batch_size h) = 0)"
  using assms
proof (induction "nat (n - i)" arbitrary: h i acc rule: less_induct)
  case less
  let ?bs = "batch_size h"
  show ?case
  proof (cases "i < n")
    case False
    have "ok" using less.prems(2) False by (subst (asm) prefill.simps) simp
    moreover have "\<not> i + int k * ?bs < n" for k :: nat
    proof -
      have "0 \<le> int k * ?bs" using less.prems(1) by simp
      then show ?thesis using False by linarith
    qed
    ultimately show ?thesis by simp
  next
    case True
    define n_eval where "n_eval = (if n - i > ?bs then ?bs else n - i)"
    define h1 where "h1 = fill_chunk toks i n_eval h"
    define acc1 where "acc1 = acc @ [Decode (submitted (batch h1)) (rc i)]"
    let ?h2 = "h1\<lparr>n_cur := n_cur h1 + n_eval\<rparr>"
    have unfold: "prefill h toks n rc i acc =
        (if rc i \<noteq> 0 then Some (False, h1, acc1)
         else prefill ?h2 toks n rc (i + ?bs) acc1)"
      using True by (subst prefill.simps) (simp add: Let_def n_eval_def h1_def acc1_def)
    show ?thesis
    proof (cases "rc i = 0")
      case False
      then have "\<not> ok" using unfold less.prems(2) by simp
      moreover have "i + int 0 * ?bs < n \<and> rc (i + int 0 * ?bs) \<noteq> 0" using True False by simp
      ultimately show ?thesis by blast
    next
      case rc0: True
      have b2: "batch_size ?h2 = ?bs" by (simp add: h1_def fill_chunk_fields)
      have m: "nat (n - (i + ?bs)) < nat (n - i)" using True less.prems(1) by simp
      have p: "prefill ?h2 toks n rc (i + ?bs) acc1 = Some (ok, h', cs)"
        using unfold rc0 less.prems(2) by simp
      have ih: "ok \<longleftrightarrow> (\<forall>k::nat. (i + ?bs) + int k * ?bs < n \<longrightarrow> rc ((i + ?bs) + int k * ?bs) = 0)"
        using less.hyps [OF m _ p] less.prems(1) b2 by simp
      have sh: "(i + ?bs) + int k * ?bs = i + int (Suc k) * ?bs" for k :: nat
        by (simp add: algebra_simps)
      have "(\<forall>k::nat. (i + ?bs) + int k * ?bs < n \<longrightarrow> rc ((i + ?bs) + int k * ?bs) = 0) \<longleftrightarrow>
            (\<forall>k::nat. i + int k * ?bs < n \<longrightarrow> rc (i + int k * ?bs) = 0)" (is "?R \<longleftrightarrow> ?L")
      proof
        assume R: ?R
        show ?L
        proof (intro allI impI)
          fix k :: nat
          assume a: "i + int k * ?bs < n"
          show "rc (i + int k * ?bs) = 0"
          proof (cases k)
            case 0
            then show ?thesis using rc0 by simp
          next
            case (Suc j)
            then have "(i + ?bs) + int j * ?bs < n" using a by (simp only: sh)
            then have "rc ((i + ?bs) + int j * ?bs) = 0" using R by blast
            then show ?thesis using Suc by (simp only: sh)
          qed
        qed
      next
        assume L: ?L
        show ?R
        proof (intro allI impI)
          fix k :: nat
          assume "(i + ?bs) + int k * ?bs < n"
          then have "i + int (Suc k) * ?bs < n" by (simp only: sh)
          then have "rc (i + int (Suc k) * ?bs) = 0" using L by blast
          then show "rc ((i + ?bs) + int k * ?bs) = 0" by (simp only: sh)
        qed
      qed
      then show ?thesis using ih by simp
    qed
  qed
qed

lemma prepare_prompt_ok_iff:
  assumes bs: "0 < batch_size h"
    and short: "int (length (prompt_tokens env)) < llama_n_ctx (ctx h) - 128"
    and p: "prepare_prompt h env = Some (ok, h', cs)"
  shows "ok \<longleftrightarrow> (\<forall>k::nat. int k * batch_size h < int (length (prompt_tokens env)) \<longrightarrow>
                  chunk_rc env (int k * batch_size h) = 0)"
proof -
  let ?T = "int (length (prompt_tokens env))"
  let ?h0 = "h\<lparr>is_prepared := False, n_cur := 0\<rparr>"
  let ?toks = "take (nat ?T) (prompt_tokens env)"
  have b0: "0 < batch_size ?h0" using bs by simp
  obtain ok1 h1 cs1 where r: "prefill ?h0 ?toks ?T (chunk_rc env) 0 [Memory_clear] = Some (ok1, h1, cs1)"
    using prefill_returns [OF b0, of ?toks ?T "chunk_rc env" 0 "[Memory_clear]"] by blast
  have "ok = ok1"
    using p short r by (auto simp: prepare_prompt_def Let_def tokenize_two_phase split: if_splits)
  then show ?thesis using prefill_ok_iff [OF b0 r] by simp
qed

lemma big_handle_fields:
  "batch_size big_handle = 128" "ctx big_handle = Context 512"
  by (simp_all add: big_handle_def wrapper_init_def big_init_def Let_def)

lemma fold_set_slot_length:
  "length (slots (batch (fold (set_slot tokens i n_eval) js h))) = length (slots (batch h))"
  by (induction js arbitrary: h) (simp_all add: set_slot_def)

lemma fill_chunk_length:
  "length (slots (batch (fill_chunk tokens i n_eval h))) = length (slots (batch h))"
  by (simp add: fill_chunk_def fold_set_slot_length reset_batch_positions_def)

lemma sampling_handle_fields:
  "smpl sampling_handle = Some (sampler_chain (FNum (4 / 5)) (FNum (9 / 10)))"
  "length (slots (batch sampling_handle)) = 128"
  by (simp_all add: fill_chunk_length sampling_handle_def get_next_token_def ensure_sampler_def Let_def
      prepared_handle_fields demo_step_def stop_sequence_def strstr_def c_str_def
      out_buf_of_def single_batch_def prepared_handle_def short_prompt_def eval_defs)


section \<open>The claims\<close>

text \<open>
  Claim C6.  A prompt of at least \<open>n_ctx - 128\<close> tokens makes
  \<open>wrapper_prepare_prompt\<close> return false, and so does a shorter prompt one of whose
  chunks (they start at the multiples of \<open>batch_size\<close> below the token count) the
  engine refuses.  Whenever the function returns false the handle is left with
  \<open>is_prepared = false\<close>: every following \<open>wrapper_get_next_token\<close> returns -2 and
  changes nothing, however often it is called, until a later prepare succeeds.
\<close>

theorem prepare_failure_leaves_not_ready:
  assumes bs: "0 < batch_size h"
  shows "(llama_n_ctx (ctx h) - 128 \<le> int (length (prompt_tokens env)) \<longrightarrow>
            (\<exists>h' cs. prepare_prompt h env = Some (False, h', cs))) \<and>
         (int (length (prompt_tokens env)) < llama_n_ctx (ctx h) - 128 \<and>
          (\<exists>k::nat. int k * batch_size h < int (length (prompt_tokens env)) \<and>
                     chunk_rc env (int k * batch_size h) \<noteq> 0) \<longrightarrow>
            (\<exists>h' cs. prepare_prompt h env = Some (False, h', cs))) \<and>
         (\<forall>h' cs. prepare_prompt h env = Some (False, h', cs) \<longrightarrow>
            \<not> is_prepared h' \<and>
            (\<forall>temp top_p senv. get_next_token h' temp top_p senv = (- 2, h', [])) \<and>
            (\<forall>reqs. generate h' reqs = (map (\<lambda>q. (- 2, [])) reqs, h')))"
proof -
  from prepare_prompt_returns [OF bs, of env]
  obtain ok h1 cs1 where r: "prepare_prompt h env = Some (ok, h1, cs1)" "is_prepared h1 = ok"
    "int (length (prompt_tokens env)) \<ge> llama_n_ctx (ctx h) - 128 \<longrightarrow> \<not> ok"
    by blast
  have a: "llama_n_ctx (ctx h) - 128 \<le> int (length (prompt_tokens env)) \<longrightarrow>
            (\<exists>h' cs. prepare_prompt h env = Some (False, h', cs))"
    using r by auto
  have c: "\<exists>h' cs. prepare_prompt h env = Some (False, h', cs)"
    if short: "int (length (prompt_tokens env)) < llama_n_ctx (ctx h) - 128"
      and refused: "\<exists>k::nat. int k * batch_size h < int (length (prompt_tokens env)) \<and>
                     chunk_rc env (int k * batch_size h) \<noteq> 0"
  proof -
    have "\<not> ok" using prepare_prompt_ok_iff [OF bs short r(1)] refused by blast
    then show ?thesis using r(1) by auto
  qed
  have b: "\<not> is_prepared h' \<and>
            (\<forall>temp top_p senv. get_next_token h' temp top_p senv = (- 2, h', [])) \<and>
            (\<forall>reqs. generate h' reqs = (map (\<lambda>q. (- 2, [])) reqs, h'))"
    if "prepare_prompt h env = Some (False, h', cs)" for h' cs
  proof -
    have "\<not> is_prepared h'" using that r by simp
    then show ?thesis by (simp add: get_next_token_def generate_not_prepared)
  qed
  show ?thesis using a b c by blast
qed

theorem prepare_failure_leaves_not_ready_witness:
  "0 < batch_size demo_handle \<and>
   llama_n_ctx (ctx demo_handle) - 128 \<le> int (length (prompt_tokens long_prompt)) \<and>
   fst (the (prepare_prompt demo_handle long_prompt)) = False \<and>
   \<not> is_prepared (fst (snd (the (prepare_prompt demo_handle long_prompt)))) \<and>
   fst (get_next_token (fst (snd (the (prepare_prompt demo_handle long_prompt))))
          (FNum (4 / 5)) (FNum (9 / 10)) demo_step) = - 2 \<and>
   0 < batch_size big_handle \<and>
   int (length (prompt_tokens two_chunk_prompt)) < llama_n_ctx (ctx big_handle) - 128 \<and>
   int (1::nat) * batch_size big_handle < int (length (prompt_tokens two_chunk_prompt)) \<and>
   chunk_rc two_chunk_prompt 0 = 0 \<and>
   chunk_rc two_chunk_prompt (int (1::nat) * batch_size big_handle) = 1 \<and>
   fst (the (prepare_prompt big_handle two_chunk_prompt)) = False \<and>
   \<not> is_prepared (fst (snd (the (prepare_prompt big_handle two_chunk_prompt)))) \<and>
   fst (get_next_token (fst (snd (the (prepare_prompt big_handle two_chunk_prompt))))
          (FNum (4 / 5)) (FNum (9 / 10)) demo_step) = - 2"
proof -
  have bs: "0 < batch_size demo_handle" by (simp add: demo_handle_fields)
  have long: "llama_n_ctx (ctx demo_handle) - 128 \<le> int (length (prompt_tokens long_prompt))"
    by (simp add: demo_handle_fields long_prompt_def)
  have bb: "0 < batch_size big_handle" by (simp add: big_handle_fields)
  have short: "int (length (prompt_tokens two_chunk_prompt)) < llama_n_ctx (ctx big_handle) - 128"
    by (simp add: big_handle_fields two_chunk_prompt_def)
  have k: "int (1::nat) * batch_size big_handle < int (length (prompt_tokens two_chunk_prompt))"
    "chunk_rc two_chunk_prompt 0 = 0"
    "chunk_rc two_chunk_prompt (int (1::nat) * batch_size big_handle) = 1"
    by (simp_all add: big_handle_fields two_chunk_prompt_def)
  have refused: "\<exists>k::nat. int k * batch_size big_handle < int (length (prompt_tokens two_chunk_prompt)) \<and>
                     chunk_rc two_chunk_prompt (int k * batch_size big_handle) \<noteq> 0"
    using k by (intro exI [of _ "1::nat"]) simp
  have first: "fst (the (prepare_prompt demo_handle long_prompt)) = False \<and>
   \<not> is_prepared (fst (snd (the (prepare_prompt demo_handle long_prompt)))) \<and>
   fst (get_next_token (fst (snd (the (prepare_prompt demo_handle long_prompt))))
          (FNum (4 / 5)) (FNum (9 / 10)) demo_step) = - 2"
    using prepare_failure_leaves_not_ready [OF bs, of long_prompt] long by auto
  have second: "fst (the (prepare_prompt big_handle two_chunk_prompt)) = False \<and>
   \<not> is_prepared (fst (snd (the (prepare_prompt big_handle two_chunk_prompt)))) \<and>
   fst (get_next_token (fst (snd (the (prepare_prompt big_handle two_chunk_prompt))))
          (FNum (4 / 5)) (FNum (9 / 10)) demo_step) = - 2"
    using prepare_failure_leaves_not_ready [OF bb, of two_chunk_prompt] short refused by auto
  show ?thesis using bs long bb short k first second by blast
qed

text \<open>
  Claim C1.  On every handle reached from \<open>wrapper_init\<close> by any sequence of prepare and
  next-token calls, a ready session satisfies \<open>n_cur = n_prompt + n_gen\<close>.  A successful
  prepare leaves \<open>n_cur = n_prompt\<close> and \<open>n_gen = 0\<close>, and every next-token call whose
  token the engine accepted adds exactly 1 to \<open>n_cur\<close> and to \<open>n_gen\<close> and leaves
  \<open>n_prompt\<close> alone.
\<close>

theorem cursor_is_prompt_plus_generated:
  assumes init: "wrapper_init path cs th mm ienv = (Some h0, c0)"
    and run: "run h0 ops = Some h"
  shows "(is_prepared h \<longrightarrow> n_cur h = n_prompt h + n_gen h) \<and>
         (\<forall>env h' cs. prepare_prompt h env = Some (True, h', cs) \<longrightarrow>
            is_prepared h' \<and> n_cur h' = n_prompt h' \<and> n_gen h' = 0) \<and>
         (\<forall>temp top_p env r h' cs.
            get_next_token h temp top_p env = (r, h', cs) \<and> advanced cs \<longrightarrow>
            n_cur h' = n_cur h + 1 \<and> n_gen h' = n_gen h + 1 \<and> n_prompt h' = n_prompt h \<and>
            is_prepared h')"
proof -
  note i = wrapper_init_handle [OF init]
  from run_invariant [of h0 ops] i run
  have inv: "batch_size h = batch_size h0" "is_prepared h \<longrightarrow> n_cur h = n_prompt h + n_gen h"
    by auto
  have bs: "0 < batch_size h" using inv i by simp
  have p: "is_prepared h' \<and> n_cur h' = n_prompt h' \<and> n_gen h' = 0"
    if "prepare_prompt h env = Some (True, h', cs)" for env h' cs
    using prepare_prompt_returns [OF bs, of env] that by auto
  have g: "n_cur h' = n_cur h + 1 \<and> n_gen h' = n_gen h + 1 \<and> n_prompt h' = n_prompt h \<and>
           is_prepared h'"
    if "get_next_token h temp top_p env = (r, h', cs)" "advanced cs" for temp top_p env r h' cs
    using get_next_token_advanced [OF that] get_next_token_frame [OF that(1)] by simp
  show ?thesis using inv(2) p g by blast
qed

theorem cursor_is_prompt_plus_generated_witness:
  "is_prepared (the (run demo_handle demo_ops)) \<and>
   n_prompt (the (run demo_handle demo_ops)) = 3 \<and>
   n_gen (the (run demo_handle demo_ops)) = 2 \<and>
   n_cur (the (run demo_handle demo_ops)) = 5"
proof -
  have e: "is_prepared (the (run demo_handle demo_ops))"
    "n_prompt (the (run demo_handle demo_ops)) = 3"
    "n_gen (the (run demo_handle demo_ops)) = 2"
    by (simp_all add: demo_ops_def short_prompt_def demo_step_def eval_defs)
  obtain h where r: "run demo_handle demo_ops = Some h"
    using run_invariant [of demo_handle demo_ops] by (auto simp: demo_handle_fields)
  from cursor_is_prompt_plus_generated [OF demo_handle_init r] e r
  show ?thesis by simp
qed

text \<open>
  Claim C8.  With a positive context size, \<open>0 \<le> n_cur < n_ctx\<close> holds on every handle
  reached from \<open>wrapper_init\<close>.  A prepare that succeeds sets the cursor to the prompt's
  token count, which is below \<open>n_ctx - 128\<close>; a next-token call moves the cursor only
  by one and only from below \<open>n_ctx - 4\<close>.  At or above \<open>n_ctx - 4\<close> a call on a ready
  session neither samples nor decodes, and returns 0 once \<open>ensure_sampler\<close> has
  succeeded (-3 if it has failed).
\<close>

theorem cursor_below_context_capacity:
  assumes init: "wrapper_init path cs th mm ienv = (Some h0, c0)"
    and pos: "0 < context_size ienv"
    and run: "run h0 ops = Some h"
  shows "0 \<le> n_cur h \<and> n_cur h < llama_n_ctx (ctx h) \<and>
         llama_n_ctx (ctx h) = context_size ienv \<and>
         (\<forall>env h' cs. prepare_prompt h env = Some (True, h', cs) \<longrightarrow>
            n_cur h' = int (length (prompt_tokens env)) \<and>
            n_cur h' < llama_n_ctx (ctx h) - 128) \<and>
         (\<forall>temp top_p env r h' cs. get_next_token h temp top_p env = (r, h', cs) \<longrightarrow>
            (if advanced cs then n_cur h < llama_n_ctx (ctx h) - 4 \<and> n_cur h' = n_cur h + 1
             else n_cur h' = n_cur h) \<and>
            (is_prepared h \<and> n_cur h \<ge> llama_n_ctx (ctx h) - 4 \<longrightarrow>
               r = (if fst (ensure_sampler h temp top_p (chain_ok env)) then 0 else - 3) \<and>
               \<not> list_ex is_sample cs \<and> \<not> list_ex is_decode cs))"
proof -
  note i = wrapper_init_handle [OF init]
  from run_invariant [of h0 ops] i run pos
  have inv: "batch_size h = batch_size h0" "ctx h = ctx h0" "0 \<le> n_cur h"
    "n_cur h < llama_n_ctx (ctx h)"
    by auto
  have bs: "0 < batch_size h" using inv i by simp
  have c: "llama_n_ctx (ctx h) = context_size ienv" using inv i by simp
  have p: "n_cur h' = int (length (prompt_tokens env)) \<and> n_cur h' < llama_n_ctx (ctx h) - 128"
    if "prepare_prompt h env = Some (True, h', cs)" for env h' cs
    using prepare_prompt_returns [OF bs, of env] that
    by (cases "llama_n_ctx (ctx h) - 128 \<le> int (length (prompt_tokens env))") auto
  have g: "(if advanced cs then n_cur h < llama_n_ctx (ctx h) - 4 \<and> n_cur h' = n_cur h + 1
             else n_cur h' = n_cur h) \<and>
            (is_prepared h \<and> n_cur h \<ge> llama_n_ctx (ctx h) - 4 \<longrightarrow>
               r = (if fst (ensure_sampler h temp top_p (chain_ok env)) then 0 else - 3) \<and>
               \<not> list_ex is_sample cs \<and> \<not> list_ex is_decode cs)"
    if "get_next_token h temp top_p env = (r, h', cs)" for temp top_p env r h' cs
    using get_next_token_advanced [OF that] get_next_token_not_advanced [OF that]
      get_next_token_at_limit [OF that]
    by auto
  show ?thesis using inv(3,4) c p g by blast
qed

theorem cursor_below_context_capacity_witness:
  "0 < context_size demo_init \<and>
   0 \<le> n_cur (the (run demo_handle demo_ops)) \<and>
   n_cur (the (run demo_handle demo_ops)) < 256 \<and>
   llama_n_ctx (ctx (the (run demo_handle demo_ops))) = 256"
proof -
  have pos: "0 < context_size demo_init" by (simp add: demo_init_def)
  obtain h where r: "run demo_handle demo_ops = Some h"
    using run_invariant [of demo_handle demo_ops] by (auto simp: demo_handle_fields)
  from cursor_below_context_capacity [OF demo_handle_init pos r] r pos
  show ?thesis by (simp add: demo_init_def)
qed

text \<open>
  Claim C4.  Whenever a call has sampled a token and the text decoded into \<open>out_buf\<close>
  contains one of the markers \<open><|im_end|\<close>, \<open><|im_start|>\<close>, \<open><|user|>\<close> or
  \<open>user\<close> followed by a newline, the call returns 0, makes no \<open>llama_decode\<close> call,
  and leaves the cursor, the counts, the limit and the readiness as they were.
\<close>

theorem stop_marker_ends_generation:
  assumes call: "get_next_token h temp top_p env = (r, h', cs)"
    and smp: "list_ex is_sample cs"
    and mk: "m \<in> set stop_markers"
    and sub: "sublist m (decoded_text env)"
  shows "r = 0 \<and> counters h' = counters h \<and> \<not> list_ex is_decode cs"
proof -
  obtain ok h1 c1 where e: "ensure_sampler h temp top_p (chain_ok env) = (ok, h1, c1)"
    by (cases "ensure_sampler h temp top_p (chain_ok env)") auto
  note f = ensure_sampler_frame [OF e]
  have "m \<noteq> []" using mk by (auto simp: stop_markers_def)
  then have n: "piece_n env > 0"
    using sub decoded_text_empty [of env] by (cases "piece_n env \<le> 0") auto
  have s: "stop_sequence (out_buf_of env)"
    using mk sub by (auto simp: stop_sequence_markers decoded_text_def)
  show ?thesis
    using call smp f n s unfolding get_next_token_unfold [OF e]
    by (auto split: if_splits)
qed

theorem stop_marker_ends_generation_witness:
  "list_ex is_sample (snd (snd (get_next_token prepared_handle (FNum (4 / 5)) (FNum (9 / 10)) marker_step))) \<and>
   ''<|im_start|>'' \<in> set stop_markers \<and>
   sublist ''<|im_start|>'' (decoded_text marker_step) \<and>
   fst (get_next_token prepared_handle (FNum (4 / 5)) (FNum (9 / 10)) marker_step) = 0 \<and>
   n_cur (fst (snd (get_next_token prepared_handle (FNum (4 / 5)) (FNum (9 / 10)) marker_step))) = 3 \<and>
   n_gen (fst (snd (get_next_token prepared_handle (FNum (4 / 5)) (FNum (9 / 10)) marker_step))) = 0"
proof -
  let ?g = "get_next_token prepared_handle (FNum (4 / 5)) (FNum (9 / 10)) marker_step"
  have c: "?g = (fst ?g, fst (snd ?g), snd (snd ?g))" by simp
  have mk: "''<|im_start|>'' \<in> set stop_markers" by (simp add: stop_markers_def)
  have sub: "sublist ''<|im_start|>'' (decoded_text marker_step)"
    by (simp add: find_from_sublist [symmetric] decoded_text_def out_buf_of_def c_str_def marker_step_def)
  have smp: "list_ex is_sample (snd (snd ?g))"
    by (simp add: get_next_token_def ensure_sampler_def Let_def prepared_handle_fields
        marker_step_def stop_sequence_def strstr_def c_str_def out_buf_of_def sampler_chain_def)
  from stop_marker_ends_generation [OF c smp mk sub] smp mk sub
  show ?thesis by (simp add: counters_def prepared_handle_fields)
qed

text \<open>
  Claim C5.  \<open>ensure_sampler\<close> calls \<open>llama_sampler_chain_init\<close> exactly when the handle
  has no sampler or the requested temperature or top-p differs from the cached one
  (compared with C's \<open>==\<close>), at most once per call; otherwise it only calls
  \<open>llama_sampler_reset\<close> and leaves the handle as it is.  Hence, after a next-token
  call that obtained its sampler for \<open>(temp, top_p)\<close>, the following call builds no
  chain and resets once if its pair is equal to \<open>(temp, top_p)\<close>, and builds exactly one
  chain and resets nothing if either value differs.
\<close>

theorem sampler_rebuilt_iff_configuration_differs:
  "(\<forall>h temp top_p c ok h' cs. ensure_sampler h temp top_p c = (ok, h', cs) \<longrightarrow>
      (Sampler_chain_init \<in> set cs \<longleftrightarrow>
         smpl h = None \<or> \<not> feq temp (last_temp h) \<or> \<not> feq top_p (last_top_p h)) \<and>
      count_list cs Sampler_chain_init \<le> 1 \<and>
      (Sampler_chain_init \<notin> set cs \<longrightarrow> cs = [Sampler_reset] \<and> h' = h \<and> ok)) \<and>
   (\<forall>h temp top_p env r h1 cs1 temp' top_p' env' r' h2 cs2.
      is_prepared h \<and> get_next_token h temp top_p env = (r, h1, cs1) \<and>
      fst (ensure_sampler h temp top_p (chain_ok env)) \<and>
      get_next_token h1 temp' top_p' env' = (r', h2, cs2) \<longrightarrow>
      count_list cs2 Sampler_chain_init = (if feq temp' temp \<and> feq top_p' top_p then 0 else 1) \<and>
      count_list cs2 Sampler_reset = (if feq temp' temp \<and> feq top_p' top_p then 1 else 0))"
proof -
  have a: "(Sampler_chain_init \<in> set cs \<longleftrightarrow>
         smpl h = None \<or> \<not> feq temp (last_temp h) \<or> \<not> feq top_p (last_top_p h)) \<and>
      count_list cs Sampler_chain_init \<le> 1 \<and>
      (Sampler_chain_init \<notin> set cs \<longrightarrow> cs = [Sampler_reset] \<and> h' = h \<and> ok)"
    if e: "ensure_sampler h temp top_p c = (ok, h', cs)" for h temp top_p c ok h' cs
  proof -
    note r = ensure_sampler_rebuild [OF e]
    have m: "Sampler_chain_init \<in> set cs \<longleftrightarrow> count_list cs Sampler_chain_init \<noteq> 0"
      by (simp add: count_list_0_iff)
    show ?thesis using r(1,3) m by (auto split: if_splits)
  qed
  have b: "count_list cs2 Sampler_chain_init = (if feq temp' temp \<and> feq top_p' top_p then 0 else 1) \<and>
      count_list cs2 Sampler_reset = (if feq temp' temp \<and> feq top_p' top_p then 1 else 0)"
    if p: "is_prepared h" and g1: "get_next_token h temp top_p env = (r, h1, cs1)"
      and r: "fst (ensure_sampler h temp top_p (chain_ok env))" and g2: "get_next_token h1 temp' top_p' env' = (r', h2, cs2)"
    for h temp top_p env r h1 cs1 temp' top_p' env' r' h2 cs2
  proof -
    obtain ok ha ca where e1: "ensure_sampler h temp top_p (chain_ok env) = (ok, ha, ca)"
      by (cases "ensure_sampler h temp top_p (chain_ok env)") auto
    obtain ok' hb cb where e2: "ensure_sampler h1 temp' top_p' (chain_ok env') = (ok', hb, cb)"
      by (cases "ensure_sampler h1 temp' top_p' (chain_ok env')") auto
    note s1 = get_next_token_sampler [OF g1 p e1]
    have ok using e1 r by simp
    then have st: "smpl h1 \<noteq> None" "last_temp h1 = temp" "last_top_p h1 = top_p"
      using ensure_sampler_rebuild(4) [OF e1] s1 by simp_all
    have p1: "is_prepared h1" using get_next_token_frame(6) [OF g1] p by simp
    note s2 = get_next_token_sampler [OF g2 p1 e2]
    show ?thesis using s2(1,2) ensure_sampler_rebuild(1,2) [OF e2] st by simp
  qed
  show ?thesis using a b by blast
qed

theorem sampler_rebuilt_iff_configuration_differs_witness:
  "is_prepared prepared_handle \<and>
   fst (ensure_sampler prepared_handle (FNum (4 / 5)) (FNum (9 / 10)) (chain_ok demo_step)) \<and>
   fst (get_next_token prepared_handle (FNum (4 / 5)) (FNum (9 / 10)) demo_step) = 2 \<and>
   count_list (snd (snd (get_next_token prepared_handle (FNum (4 / 5)) (FNum (9 / 10)) demo_step)))
     Sampler_chain_init = 1 \<and>
   count_list (snd (snd (get_next_token
       (fst (snd (get_next_token prepared_handle (FNum (4 / 5)) (FNum (9 / 10)) demo_step)))
       (FNum (4 / 5)) (FNum (9 / 10)) demo_step))) Sampler_chain_init = 0 \<and>
   count_list (snd (snd (get_next_token
       (fst (snd (get_next_token prepared_handle (FNum (4 / 5)) (FNum (9 / 10)) demo_step)))
       (FNum (4 / 5)) (FNum (9 / 10)) demo_step))) Sampler_reset = 1 \<and>
   count_list (snd (snd (get_next_token
       (fst (snd (get_next_token prepared_handle (FNum (4 / 5)) (FNum (9 / 10)) demo_step)))
       (FNum (7 / 10)) (FNum (9 / 10)) demo_step))) Sampler_chain_init = 1"
proof -
  let ?g = "get_next_token prepared_handle (FNum (4 / 5)) (FNum (9 / 10)) demo_step"
  let ?same = "get_next_token (fst (snd ?g)) (FNum (4 / 5)) (FNum (9 / 10)) demo_step"
  let ?other = "get_next_token (fst (snd ?g)) (FNum (7 / 10)) (FNum (9 / 10)) demo_step"
  have c: "?g = (fst ?g, fst (snd ?g), snd (snd ?g))"
    "?same = (fst ?same, fst (snd ?same), snd (snd ?same))"
    "?other = (fst ?other, fst (snd ?other), snd (snd ?other))"
    by simp_all
  have p: "is_prepared prepared_handle" by (simp add: prepared_handle_fields)
  have r: "fst ?g = 2"
    by (simp add: get_next_token_def ensure_sampler_def Let_def prepared_handle_fields
        demo_step_def stop_sequence_def strstr_def c_str_def out_buf_of_def)
  have r3: "fst (ensure_sampler prepared_handle (FNum (4 / 5)) (FNum (9 / 10)) (chain_ok demo_step))"
    by (simp add: ensure_sampler_def Let_def prepared_handle_fields demo_step_def)
  have e: "ensure_sampler prepared_handle (FNum (4 / 5)) (FNum (9 / 10)) (chain_ok demo_step) =
      (fst (ensure_sampler prepared_handle (FNum (4 / 5)) (FNum (9 / 10)) (chain_ok demo_step)),
       fst (snd (ensure_sampler prepared_handle (FNum (4 / 5)) (FNum (9 / 10)) (chain_ok demo_step))),
       snd (snd (ensure_sampler prepared_handle (FNum (4 / 5)) (FNum (9 / 10)) (chain_ok demo_step))))"
    by simp
  have first: "count_list (snd (snd ?g)) Sampler_chain_init = 1"
    using sampler_rebuilt_iff_configuration_differs get_next_token_sampler(1) [OF c(1) p e]
      ensure_sampler_rebuild(1) [OF e]
    by (simp add: prepared_handle_fields)
  from sampler_rebuilt_iff_configuration_differs p c r3
  have "count_list (snd (snd ?same)) Sampler_chain_init =
          (if feq (FNum (4 / 5)) (FNum (4 / 5)) \<and> feq (FNum (9 / 10)) (FNum (9 / 10)) then 0 else 1)"
    "count_list (snd (snd ?same)) Sampler_reset =
          (if feq (FNum (4 / 5)) (FNum (4 / 5)) \<and> feq (FNum (9 / 10)) (FNum (9 / 10)) then 1 else 0)"
    "count_list (snd (snd ?other)) Sampler_chain_init =
          (if feq (FNum (7 / 10)) (FNum (4 / 5)) \<and> feq (FNum (9 / 10)) (FNum (9 / 10)) then 0 else 1)"
    by blast+
  then show ?thesis using p r r3 first by (simp add: feq_def)
qed

text \<open>
  Claim C7, amended.  From a ready session reached from \<open>wrapper_init\<close>, at most
  \<open>max_new_tokens - n_gen\<close> calls of any series of next-token calls get a token accepted,
  whatever the engine samples.  Once that many have been accepted, no later call samples,
  decodes or changes the bookkeeping: each returns 0, or -3 when \<open>ensure_sampler\<close>
  fails on that call.
\<close>

theorem length_guard_stops_generation:
  assumes init: "wrapper_init path cs th mm ienv = (Some h0, c0)"
    and run: "run h0 ops = Some h"
    and prep: "is_prepared h"
    and gen: "generate h reqs = (outs, h')"
  shows "int (submissions outs) \<le> max_new_tokens h - n_gen h \<and>
         (int (submissions outs) = max_new_tokens h - n_gen h \<longrightarrow>
            (\<forall>temp top_p env r h2 cs2. get_next_token h' temp top_p env = (r, h2, cs2) \<longrightarrow>
               r = (if fst (ensure_sampler h' temp top_p (chain_ok env)) then 0 else - 3) \<and>
               counters h2 = counters h' \<and>
               \<not> list_ex is_sample cs2 \<and> \<not> list_ex is_decode cs2) \<and>
            (\<forall>reqs2 outs2 h2. generate h' reqs2 = (outs2, h2) \<longrightarrow>
               submissions outs2 = 0 \<and> counters h2 = counters h' \<and>
               (\<forall>out \<in> set outs2. (fst out = 0 \<or> fst out = - 3) \<and>
                  \<not> list_ex is_sample (snd out) \<and> \<not> list_ex is_decode (snd out))))"
proof -
  note i = wrapper_init_handle [OF init]
  have le: "n_gen h \<le> max_new_tokens h"
    using run_limit_invariant [OF i(1) _ run] i(4) prep by simp
  note c = generate_counts [OF gen]
  have a: "int (submissions outs) \<le> max_new_tokens h - n_gen h" using c le by simp
  have b: "(\<forall>temp top_p env r h2 cs2. get_next_token h' temp top_p env = (r, h2, cs2) \<longrightarrow>
               r = (if fst (ensure_sampler h' temp top_p (chain_ok env)) then 0 else - 3) \<and>
               counters h2 = counters h' \<and>
               \<not> list_ex is_sample cs2 \<and> \<not> list_ex is_decode cs2) \<and>
            (\<forall>reqs2 outs2 h2. generate h' reqs2 = (outs2, h2) \<longrightarrow>
               submissions outs2 = 0 \<and> counters h2 = counters h' \<and>
               (\<forall>out \<in> set outs2. (fst out = 0 \<or> fst out = - 3) \<and>
                  \<not> list_ex is_sample (snd out) \<and> \<not> list_ex is_decode (snd out)))"
    if full: "int (submissions outs) = max_new_tokens h - n_gen h"
  proof -
    have p': "is_prepared h'" using c prep by simp
    have l': "n_gen h' \<ge> max_new_tokens h'" using c full by simp
    have "r = (if fst (ensure_sampler h' temp top_p (chain_ok env)) then 0 else - 3) \<and>
               counters h2 = counters h' \<and>
               \<not> list_ex is_sample cs2 \<and> \<not> list_ex is_decode cs2"
      if "get_next_token h' temp top_p env = (r, h2, cs2)" for temp top_p env r h2 cs2
      using get_next_token_at_limit [OF that p'] l' by simp
    moreover have "submissions outs2 = 0 \<and> counters h2 = counters h' \<and>
               (\<forall>out \<in> set outs2. (fst out = 0 \<or> fst out = - 3) \<and>
                  \<not> list_ex is_sample (snd out) \<and> \<not> list_ex is_decode (snd out))"
      if "generate h' reqs2 = (outs2, h2)" for reqs2 outs2 h2
      using generate_at_limit [OF p' l' that] .
    ultimately show ?thesis by blast
  qed
  show ?thesis using a b by blast
qed

theorem length_guard_stops_generation_witness:
  "is_prepared (the (run small_handle [Prepare bos_prompt])) \<and>
   submissions (fst (generate (the (run small_handle [Prepare bos_prompt])) sixteen_steps)) = 16 \<and>
   max_new_tokens (the (run small_handle [Prepare bos_prompt])) = 16 \<and>
   fst (get_next_token limit_handle (FNum (4 / 5)) (FNum (9 / 10)) demo_step) = 0 \<and>
   n_gen (fst (snd (get_next_token limit_handle (FNum (4 / 5)) (FNum (9 / 10)) demo_step))) = 16"
proof -
  let ?hp = "the (run small_handle [Prepare bos_prompt])"
  let ?g = "get_next_token limit_handle (FNum (4 / 5)) (FNum (9 / 10)) demo_step"
  obtain hp where r: "run small_handle [Prepare bos_prompt] = Some hp"
    using run_invariant [of small_handle "[Prepare bos_prompt]"] wrapper_init_handle [OF small_handle_init]
    by auto
  have hp: "?hp = hp" using r by simp
  have gen: "generate hp sixteen_steps = (fst (generate hp sixteen_steps), limit_handle)"
    using hp by (simp add: limit_handle_def)
  have p: "is_prepared hp" "n_gen hp = 0" "max_new_tokens hp = 16"
    using small_prepared_fields hp by simp_all
  have s: "submissions (fst (generate hp sixteen_steps)) = 16"
    using generate_counts [OF gen] p by (simp add: limit_handle_fields)
  have c: "?g = (fst ?g, fst (snd ?g), snd (snd ?g))" by simp
  have e: "fst (ensure_sampler limit_handle (FNum (4 / 5)) (FNum (9 / 10)) (chain_ok demo_step))"
    by (simp add: ensure_sampler_def limit_handle_fields feq_def)
  from length_guard_stops_generation [OF small_handle_init r p(1) gen] s p c e
  have "fst ?g = 0 \<and> counters (fst (snd ?g)) = counters limit_handle"
    by (metis int_ops(3) diff_zero of_nat_numeral)
  then show ?thesis using s p hp by (simp add: counters_def limit_handle_fields)
qed

text \<open>
  As stated, C7 lets every call after the limit return 0.  \<open>ensure_sampler\<close> runs before
  the length guard: on the handle that has produced its sixteen tokens, a call that asks
  for another temperature while the engine gives no sampler chain returns -3.
\<close>

theorem length_guard_refuses_without_sampler_counterexample:
  "is_prepared limit_handle \<and> max_new_tokens limit_handle \<le> n_gen limit_handle \<and>
   fst (get_next_token limit_handle (FNum (7 / 10)) (FNum (9 / 10)) no_chain_step) = - 3"
  by (simp add: get_next_token_def ensure_sampler_def Let_def limit_handle_fields feq_def
      no_chain_step_def)

text \<open>
  Claim C10, amended.  A call that returns 0 without an accepted \<open>llama_decode\<close> (the
  context guard, the length guard, a stop marker, an end-of-generation token) makes no
  \<open>llama_decode\<close> call at all and leaves \<open>n_cur\<close>, \<open>n_prompt\<close>, \<open>n_gen\<close>,
  \<open>max_new_tokens\<close> and \<open>is_prepared\<close> as they were, so the session stays ready and the
  next call gets past the readiness check.  If the stopping call had sampled (marker or
  end-of-generation token), the next call samples again as soon as \<open>ensure_sampler\<close>
  succeeds.  If it had not sampled (one of the two guards), the next call does not sample
  either: it changes nothing and returns 0, or -3 when \<open>ensure_sampler\<close> fails.
\<close>

theorem zero_return_keeps_session:
  assumes g: "get_next_token h temp top_p env = (r, h', cs)"
    and z: "r = 0" and na: "\<not> advanced cs"
  shows "counters h' = counters h \<and> is_prepared h' \<and> \<not> list_ex is_decode cs \<and>
         (\<forall>temp' top_p' env' r2 h2 cs2.
            get_next_token h' temp' top_p' env' = (r2, h2, cs2) \<longrightarrow>
            cs2 \<noteq> [] \<and>
            (list_ex is_sample cs \<and> fst (ensure_sampler h' temp' top_p' (chain_ok env')) \<longrightarrow>
               list_ex is_sample cs2) \<and>
            (\<not> list_ex is_sample cs \<longrightarrow>
               \<not> list_ex is_sample cs2 \<and> \<not> list_ex is_decode cs2 \<and>
               counters h2 = counters h' \<and>
               r2 = (if fst (ensure_sampler h' temp' top_p' (chain_ok env')) then 0 else - 3)))"
proof -
  note s = get_next_token_stopped [OF g z na]
  have c: "n_cur h' = n_cur h" "n_gen h' = n_gen h" "max_new_tokens h' = max_new_tokens h"
    "is_prepared h'" 
    using s by (simp_all add: counters_def)
  have x: "ctx h' = ctx h" by (rule get_next_token_frame(1) [OF g])
  have nxt: "cs2 \<noteq> [] \<and>
            (list_ex is_sample cs \<and> fst (ensure_sampler h' temp' top_p' (chain_ok env')) \<longrightarrow>
               list_ex is_sample cs2) \<and>
            (\<not> list_ex is_sample cs \<longrightarrow>
               \<not> list_ex is_sample cs2 \<and> \<not> list_ex is_decode cs2 \<and>
               counters h2 = counters h' \<and>
               r2 = (if fst (ensure_sampler h' temp' top_p' (chain_ok env')) then 0 else - 3))"
    if g2: "get_next_token h' temp' top_p' env' = (r2, h2, cs2)" for temp' top_p' env' r2 h2 cs2
  proof -
    obtain ok h1 c1 where e: "ensure_sampler h' temp' top_p' (chain_ok env') = (ok, h1, c1)"
      by (cases "ensure_sampler h' temp' top_p' (chain_ok env')") auto
    have r2: "cs2 \<noteq> []"
      using g2 c(4) ensure_sampler_rebuild(1,2) [OF e] unfolding get_next_token_unfold [OF e]
      by (auto split: if_splits)
    have a: "list_ex is_sample cs2"
      if "list_ex is_sample cs" "fst (ensure_sampler h' temp' top_p' (chain_ok env'))"
      using that get_next_token_sampled [OF g] get_next_token_sampled [OF g2] c x by simp
    have b: "\<not> list_ex is_sample cs2 \<and> \<not> list_ex is_decode cs2 \<and>
               counters h2 = counters h' \<and>
               r2 = (if fst (ensure_sampler h' temp' top_p' (chain_ok env')) then 0 else - 3)"
      if ns: "\<not> list_ex is_sample cs"
    proof -
      obtain ok0 ha ca where e0: "ensure_sampler h temp top_p (chain_ok env) = (ok0, ha, ca)"
        by (cases "ensure_sampler h temp top_p (chain_ok env)") auto
      have "ok0" using g z s(1) unfolding get_next_token_unfold [OF e0]
        by (auto split: if_splits)
      then have "n_gen h \<ge> max_new_tokens h \<or> n_cur h \<ge> llama_n_ctx (ctx h) - 4"
        using ns get_next_token_sampled [OF g] s(1) e0 by auto
      then have "n_gen h' \<ge> max_new_tokens h' \<or> n_cur h' \<ge> llama_n_ctx (ctx h') - 4"
        using c x by simp
      from get_next_token_at_limit [OF g2 c(4) this] show ?thesis by simp
    qed
    show ?thesis using r2 a b by blast
  qed
  show ?thesis using s c(4) nxt by blast
qed

theorem zero_return_keeps_session_witness:
  "fst (get_next_token prepared_handle (FNum (4 / 5)) (FNum (9 / 10)) marker_step) = 0 \<and>
   list_ex is_sample (snd (snd (get_next_token prepared_handle (FNum (4 / 5)) (FNum (9 / 10)) marker_step))) \<and>
   n_cur (fst (snd (get_next_token prepared_handle (FNum (4 / 5)) (FNum (9 / 10)) marker_step))) = 3 \<and>
   is_prepared (fst (snd (get_next_token prepared_handle (FNum (4 / 5)) (FNum (9 / 10)) marker_step))) \<and>
   list_ex is_sample (snd (snd (get_next_token
     (fst (snd (get_next_token prepared_handle (FNum (4 / 5)) (FNum (9 / 10)) marker_step)))
     (FNum (4 / 5)) (FNum (9 / 10)) demo_step)))"
proof -
  let ?g = "get_next_token prepared_handle (FNum (4 / 5)) (FNum (9 / 10)) marker_step"
  let ?g2 = "get_next_token (fst (snd ?g)) (FNum (4 / 5)) (FNum (9 / 10)) demo_step"
  have c: "?g = (fst ?g, fst (snd ?g), snd (snd ?g))" "?g2 = (fst ?g2, fst (snd ?g2), snd (snd ?g2))"
    by simp_all
  have ev: "fst ?g = 0" "list_ex is_sample (snd (snd ?g))" "\<not> advanced (snd (snd ?g))"
    by (simp_all add: get_next_token_def ensure_sampler_def Let_def prepared_handle_fields
        marker_step_def stop_sequence_def strstr_def c_str_def out_buf_of_def sampler_chain_def
        advanced_def)
  have e: "fst (ensure_sampler (fst (snd ?g)) (FNum (4 / 5)) (FNum (9 / 10)) (chain_ok demo_step))"
    using ensure_sampler_rebuild(5) [of "fst (snd ?g)" "FNum (4 / 5)" "FNum (9 / 10)" "chain_ok demo_step"
        "fst (ensure_sampler (fst (snd ?g)) (FNum (4 / 5)) (FNum (9 / 10)) (chain_ok demo_step))"
        "fst (snd (ensure_sampler (fst (snd ?g)) (FNum (4 / 5)) (FNum (9 / 10)) (chain_ok demo_step)))"
        "snd (snd (ensure_sampler (fst (snd ?g)) (FNum (4 / 5)) (FNum (9 / 10)) (chain_ok demo_step)))"]
    by (simp add: demo_step_def)
  from zero_return_keeps_session [OF c(1) ev(1) ev(3)] c(2) ev e
  have "counters (fst (snd ?g)) = counters prepared_handle \<and> is_prepared (fst (snd ?g)) \<and>
        list_ex is_sample (snd (snd ?g2))"
    by blast
  then show ?thesis using ev by (simp add: counters_def prepared_handle_fields)
qed

text \<open>
  As stated, C10 has every stop leave the next call free to sample again.  After a stop
  by the length guard nothing has changed, so the guard fires again: on the handle that
  has produced its sixteen tokens a call returns 0, and the call after it returns 0 as
  well without sampling.
\<close>

theorem guard_stop_is_permanent_counterexample:
  "fst (get_next_token limit_handle (FNum (4 / 5)) (FNum (9 / 10)) demo_step) = 0 \<and>
   fst (get_next_token
          (fst (snd (get_next_token limit_handle (FNum (4 / 5)) (FNum (9 / 10)) demo_step)))
          (FNum (4 / 5)) (FNum (9 / 10)) demo_step) = 0 \<and>
   \<not> list_ex is_sample (snd (snd (get_next_token
          (fst (snd (get_next_token limit_handle (FNum (4 / 5)) (FNum (9 / 10)) demo_step)))
          (FNum (4 / 5)) (FNum (9 / 10)) demo_step)))"
  by (simp add: get_next_token_def ensure_sampler_def Let_def limit_handle_fields feq_def
      demo_step_def)

text \<open>
  Claim C2, amended.  On a handle of \<open>wrapper_init\<close> (positive batch size), prepare
  returns for every prompt of fewer than \<open>n_ctx - 128\<close> tokens, and it succeeds exactly
  when the engine accepts every chunk of the pre-fill (the chunks start at the multiples
  of \<open>batch_size\<close> below the token count); the session is ready exactly when it
  succeeds.  On success \<open>n_gen = 0\<close> and \<open>max_new_tokens = max 16 (n_ctx - T - 128)\<close>.
  For a context of 256 and a prompt of 50 tokens the limit is 78, and after 78 accepted
  tokens the next call submits nothing and returns 0 (-3 if \<open>ensure_sampler\<close> fails on
  it).
\<close>

theorem accepted_prompt_sets_generation_limit:
  assumes bs: "0 < batch_size h"
    and short: "int (length (prompt_tokens env)) < llama_n_ctx (ctx h) - 128"
  shows "\<exists>ok h' cs. prepare_prompt h env = Some (ok, h', cs) \<and> is_prepared h' = ok \<and>
           (ok \<longleftrightarrow> (\<forall>k::nat. int k * batch_size h < int (length (prompt_tokens env)) \<longrightarrow>
                          chunk_rc env (int k * batch_size h) = 0)) \<and>
           (ok \<longrightarrow>
              n_gen h' = 0 \<and>
              max_new_tokens h' =
                max 16 (llama_n_ctx (ctx h) - int (length (prompt_tokens env)) - 128) \<and>
              (llama_n_ctx (ctx h) = 256 \<and> length (prompt_tokens env) = 50 \<longrightarrow>
                 max_new_tokens h' = 78 \<and>
                 (\<forall>reqs outs h'' temp top_p senv r h3 cs3.
                    generate h' reqs = (outs, h'') \<and> submissions outs = 78 \<and>
                    get_next_token h'' temp top_p senv = (r, h3, cs3) \<longrightarrow>
                    r = (if fst (ensure_sampler h'' temp top_p (chain_ok senv)) then 0 else - 3) \<and>
                    counters h3 = counters h'' \<and> \<not> list_ex is_decode cs3)))"
proof -
  from prepare_prompt_returns [OF bs, of env] short
  obtain ok h' cs where r: "prepare_prompt h env = Some (ok, h', cs)" "is_prepared h' = ok"
    "ok \<longrightarrow> n_gen h' = 0"
    "ok \<longrightarrow> max_new_tokens h' =
        max 16 (llama_n_ctx (ctx h) - int (length (prompt_tokens env)) - 128)"
    by auto
  note iff = prepare_prompt_ok_iff [OF bs short r(1)]
  have ex: "r = (if fst (ensure_sampler h'' temp top_p (chain_ok senv)) then 0 else - 3) \<and>
            counters h3 = counters h'' \<and> \<not> list_ex is_decode cs3"
    if ok and c: "llama_n_ctx (ctx h) = 256" "length (prompt_tokens env) = 50"
      and g: "generate h' reqs = (outs, h'')" and s: "submissions outs = 78"
      and n: "get_next_token h'' temp top_p senv = (r, h3, cs3)"
    for reqs outs h'' temp top_p senv r h3 cs3
  proof -
    have m: "max_new_tokens h' = 78" using r(4) c \<open>ok\<close> by simp
    note k = generate_counts [OF g]
    have "is_prepared h''" "n_gen h'' \<ge> max_new_tokens h''" using k r m s \<open>ok\<close> by simp_all
    then show ?thesis using get_next_token_at_limit [OF n] by simp
  qed
  have m78: "ok \<and> llama_n_ctx (ctx h) = 256 \<and> length (prompt_tokens env) = 50 \<longrightarrow>
               max_new_tokens h' = 78"
    using r(4) by simp
  show ?thesis
    apply (rule exI [of _ ok], rule exI [of _ h'], rule exI [of _ cs])
    using r iff ex m78 by blast
qed

theorem accepted_prompt_sets_generation_limit_witness:
  "0 < batch_size demo_handle \<and>
   int (length (prompt_tokens prompt50)) < llama_n_ctx (ctx demo_handle) - 128 \<and>
   chunk_rc prompt50 0 = 0 \<and>
   fst (the (prepare_prompt demo_handle prompt50)) \<and>
   max_new_tokens (fst (snd (the (prepare_prompt demo_handle prompt50)))) = 78 \<and>
   submissions (fst (generate (fst (snd (the (prepare_prompt demo_handle prompt50))))
     (replicate 78 (FNum (4 / 5), FNum (9 / 10), demo_step)))) = 78 \<and>
   fst (get_next_token
     (snd (generate (fst (snd (the (prepare_prompt demo_handle prompt50))))
        (replicate 78 (FNum (4 / 5), FNum (9 / 10), demo_step))))
     (FNum (4 / 5)) (FNum (9 / 10)) demo_step) = 0 \<and>
   0 < batch_size big_handle \<and>
   int (length (prompt_tokens two_chunk_prompt)) < llama_n_ctx (ctx big_handle) - 128 \<and>
   int (1::nat) * batch_size big_handle < int (length (prompt_tokens two_chunk_prompt)) \<and>
   chunk_rc two_chunk_prompt (int (1::nat) * batch_size big_handle) = 1 \<and>
   fst (the (prepare_prompt big_handle two_chunk_prompt)) = False \<and>
   is_prepared (fst (snd (the (prepare_prompt big_handle two_chunk_prompt)))) = False"
proof -
  let ?hp = "fst (snd (the (prepare_prompt demo_handle prompt50)))"
  let ?reqs = "replicate 78 (FNum (4 / 5), FNum (9 / 10), demo_step)"
  have bs: "0 < batch_size demo_handle" by (simp add: demo_handle_fields)
  have short: "int (length (prompt_tokens prompt50)) < llama_n_ctx (ctx demo_handle) - 128"
    by (simp add: demo_handle_fields prompt50_def)
  have dec: "\<forall>k::nat. int k * batch_size demo_handle < int (length (prompt_tokens prompt50)) \<longrightarrow>
               chunk_rc prompt50 (int k * batch_size demo_handle) = 0"
    by (simp add: prompt50_def)
  have c: "llama_n_ctx (ctx demo_handle) = 256 \<and> length (prompt_tokens prompt50) = 50"
    by (simp add: demo_handle_fields prompt50_def)
  from accepted_prompt_sets_generation_limit [OF bs short] dec c
  obtain h' cs where r: "prepare_prompt demo_handle prompt50 = Some (True, h', cs)"
    "is_prepared h'" "n_gen h' = 0" "max_new_tokens h' = 78"
    and nx: "\<And>reqs outs h'' temp top_p senv r h3 cs3.
                 generate h' reqs = (outs, h'') \<Longrightarrow> submissions outs = 78 \<Longrightarrow>
                 get_next_token h'' temp top_p senv = (r, h3, cs3) \<Longrightarrow>
                 r = (if fst (ensure_sampler h'' temp top_p (chain_ok senv)) then 0 else - 3)"
    by (metis (full_types))
  have hp: "?hp = h'" using r(1) by simp
  from prepare_prompt_returns [OF bs, of prompt50] r(1)
  have f: "n_cur h' = 50" "ctx h' = Context 256"
    by (auto simp: prompt50_def demo_handle_fields)
  have s: "submissions (fst (generate h' ?reqs)) = 78"
    using generate_demo_steps [of h' 78 "FNum (4 / 5)" "FNum (9 / 10)"] r f by simp
  have g: "generate h' ?reqs = (fst (generate h' ?reqs), snd (generate h' ?reqs))" by simp
  let ?h2 = "snd (generate h' ?reqs)"
  let ?n = "get_next_token ?h2 (FNum (4 / 5)) (FNum (9 / 10)) demo_step"
  have n: "?n = (fst ?n, fst (snd ?n), snd (snd ?n))" by simp
  have e: "fst (ensure_sampler ?h2 (FNum (4 / 5)) (FNum (9 / 10)) (chain_ok demo_step))"
    using ensure_sampler_rebuild(5) [of ?h2 "FNum (4 / 5)" "FNum (9 / 10)" "chain_ok demo_step"
        "fst (ensure_sampler ?h2 (FNum (4 / 5)) (FNum (9 / 10)) (chain_ok demo_step))"
        "fst (snd (ensure_sampler ?h2 (FNum (4 / 5)) (FNum (9 / 10)) (chain_ok demo_step)))"
        "snd (snd (ensure_sampler ?h2 (FNum (4 / 5)) (FNum (9 / 10)) (chain_ok demo_step)))"]
    by (simp add: demo_step_def)
  have z: "fst ?n = 0" using nx [OF g s n] e by simp
  have first: "fst (the (prepare_prompt demo_handle prompt50)) \<and>
     max_new_tokens ?hp = 78 \<and> submissions (fst (generate ?hp ?reqs)) = 78 \<and>
     fst (get_next_token (snd (generate ?hp ?reqs)) (FNum (4 / 5)) (FNum (9 / 10)) demo_step) = 0"
    using r s z hp by simp
  have bb: "0 < batch_size big_handle" by (simp add: big_handle_fields)
  have sh2: "int (length (prompt_tokens two_chunk_prompt)) < llama_n_ctx (ctx big_handle) - 128"
    by (simp add: big_handle_fields two_chunk_prompt_def)
  have k: "int (1::nat) * batch_size big_handle < int (length (prompt_tokens two_chunk_prompt))"
    "chunk_rc two_chunk_prompt (int (1::nat) * batch_size big_handle) = 1"
    by (simp_all add: big_handle_fields two_chunk_prompt_def)
  from accepted_prompt_sets_generation_limit [OF bb sh2]
  obtain ok2 h2 cs2 where r2: "prepare_prompt big_handle two_chunk_prompt = Some (ok2, h2, cs2)"
    "is_prepared h2 = ok2"
    "ok2 \<longleftrightarrow> (\<forall>k::nat. int k * batch_size big_handle < int (length (prompt_tokens two_chunk_prompt)) \<longrightarrow>
                          chunk_rc two_chunk_prompt (int k * batch_size big_handle) = 0)"
    by blast
  have "\<not> ok2" using r2(3) k by (metis zero_neq_one)
  then have second: "fst (the (prepare_prompt big_handle two_chunk_prompt)) = False \<and>
     is_prepared (fst (snd (the (prepare_prompt big_handle two_chunk_prompt)))) = False"
    using r2 by simp
  show ?thesis using bs short first bb sh2 k second by (simp add: prompt50_def)
qed

text \<open>
  As stated, C2 lets every prompt below the guard succeed.  The chunk loop returns false
  as soon as \<open>llama_decode\<close> refuses a chunk: with a context of 256 tokens and a prompt of
  50 tokens whose only chunk the engine refuses, prepare fails and the session is not
  ready.
\<close>

theorem refused_chunk_fails_prepare_counterexample:
  "int (length (prompt_tokens refused_prompt)) < llama_n_ctx (ctx demo_handle) - 128 \<and>
   fst (the (prepare_prompt demo_handle refused_prompt)) = False \<and>
   is_prepared (fst (snd (the (prepare_prompt demo_handle refused_prompt)))) = False"
  by (simp add: refused_prompt_def demo_handle_fields prepare_prompt_def prefill.simps Let_def
      llama_tokenize_def fill_chunk_fields)

text \<open>
  Claim C3.  The claim fails on the code.  \<open>wrapper_get_next_token\<close> returns the value
  \<open>n\<close> of \<open>llama_token_to_piece\<close> after the token has been submitted, whatever \<open>n\<close>
  is.  On a ready session, a token whose piece is empty (\<open>n = 0\<close>) and which is not an
  end-of-generation token is decoded, \<open>n_cur\<close> and \<open>n_gen\<close> go up by one, and the call
  returns 0, the value the function documents as end of stream.  A piece that does not
  fit the buffer (\<open>n = -3\<close>) is submitted as well and the call returns -3, the code of a
  sampler failure.
\<close>

theorem empty_piece_returns_zero_after_submitting:
  "fst (get_next_token prepared_handle (FNum (4 / 5)) (FNum (9 / 10)) empty_step) = 0 \<and>
   advanced (snd (snd (get_next_token prepared_handle (FNum (4 / 5)) (FNum (9 / 10)) empty_step))) \<and>
   n_cur (fst (snd (get_next_token prepared_handle (FNum (4 / 5)) (FNum (9 / 10)) empty_step))) =
     n_cur prepared_handle + 1 \<and>
   n_gen (fst (snd (get_next_token prepared_handle (FNum (4 / 5)) (FNum (9 / 10)) empty_step))) =
     n_gen prepared_handle + 1 \<and>
   fst (get_next_token prepared_handle (FNum (4 / 5)) (FNum (9 / 10)) cut_step) = - 3 \<and>
   advanced (snd (snd (get_next_token prepared_handle (FNum (4 / 5)) (FNum (9 / 10)) cut_step))) \<and>
   n_gen (fst (snd (get_next_token prepared_handle (FNum (4 / 5)) (FNum (9 / 10)) cut_step))) =
     n_gen prepared_handle + 1"
  by (simp add: get_next_token_def ensure_sampler_def Let_def prepared_handle_fields
      empty_step_def cut_step_def single_batch_def advanced_def sampler_chain_def)

text \<open>
  Claim C9, amended.  Releasing the null pointer does nothing.  Releasing a pointer to
  a live handle frees the sampler if there is one, the batch if it is allocated, the
  context, the model, the handle and the backend, each once and in that order (the
  engine log grows by exactly that list of calls), and the handle is live no more; every
  other handle is untouched.  After that the null pointer
  can still be released, but a second release of the same pointer dereferences the
  deleted handle: its behaviour is undefined.
\<close>

theorem release_frees_live_handle_once:
  "wrapper_free w 0 = Done w \<and>
   (\<forall>p h. p \<noteq> 0 \<and> heap w p = Some h \<longrightarrow>
      (\<exists>w'. wrapper_free w p = Done w' \<and> heap w' p = None \<and>
            (\<forall>q. q \<noteq> p \<longrightarrow> heap w' q = heap w q) \<and>
            engine_log w' =
              engine_log w @
              (if smpl h \<noteq> None then [Sampler_free] else []) @
              (if slots (batch h) \<noteq> [] then [Batch_free] else []) @
              [Context_free, Model_free, Delete_handle, Backend_free] \<and>
            engine_log w' = engine_log w @ free_calls h \<and>
            count_list (free_calls h) Sampler_free = (if smpl h = None then 0 else 1) \<and>
            count_list (free_calls h) Batch_free = (if slots (batch h) = [] then 0 else 1) \<and>
            count_list (free_calls h) Context_free = 1 \<and>
            count_list (free_calls h) Model_free = 1 \<and>
            count_list (free_calls h) Delete_handle = 1 \<and>
            count_list (free_calls h) Backend_free = 1 \<and>
            wrapper_free w' 0 = Done w' \<and>
            wrapper_free w' p = Undefined_behaviour))"
  by (simp add: wrapper_free_def free_calls_def)

theorem release_frees_live_handle_once_witness:
  "wrapper_free sampling_world 0 = Done sampling_world \<and>
   heap sampling_world 1 = Some sampling_handle \<and>
   smpl sampling_handle \<noteq> None \<and>
   slots (batch sampling_handle) \<noteq> [] \<and>
   wrapper_free sampling_world 1 = Done sampling_released \<and>
   heap sampling_released 1 = None \<and>
   engine_log sampling_released =
     [Sampler_free, Batch_free, Context_free, Model_free, Delete_handle, Backend_free] \<and>
   wrapper_free sampling_released 0 = Done sampling_released \<and>
   wrapper_free sampling_released 1 = Undefined_behaviour"
proof -
  have l: "heap sampling_world 1 = Some sampling_handle" "engine_log sampling_world = []"
    by (simp_all add: sampling_world_def)
  have s: "smpl sampling_handle \<noteq> None" "slots (batch sampling_handle) \<noteq> []"
    using sampling_handle_fields by auto
  from release_frees_live_handle_once [of sampling_world] l(1)
  obtain w' where w: "wrapper_free sampling_world 1 = Done w'" "heap w' 1 = None"
    "engine_log w' =
       engine_log sampling_world @
       (if smpl sampling_handle \<noteq> None then [Sampler_free] else []) @
       (if slots (batch sampling_handle) \<noteq> [] then [Batch_free] else []) @
       [Context_free, Model_free, Delete_handle, Backend_free]"
    "wrapper_free w' 0 = Done w'" "wrapper_free w' 1 = Undefined_behaviour"
    "wrapper_free sampling_world 0 = Done sampling_world"
    by (metis zero_neq_one)
  have r: "sampling_released = w'" using w(1) by (simp add: sampling_released_def)
  show ?thesis using w r l s by simp
qed

text \<open>
  As stated, C9 makes a second release of the same handle a no-op.  \<open>wrapper_free\<close>
  checks its argument against the null pointer only and cannot tell that the handle it
  points to has been deleted: the second call reads \<open>handle->smpl\<close> of a deleted
  object, which is undefined behaviour.
\<close>

theorem second_release_reads_deleted_handle_counterexample:
  "wrapper_free demo_world 1 = Done released_world \<and>
   wrapper_free released_world 1 = Undefined_behaviour"
  by (simp add: wrapper_free_def released_world_def demo_world_def)

end
